theory Spec2Isabelle
  imports Complex_Main "HOL-Library.Log_Nat"
begin

section \<open>Python values used by \<^verbatim>\<open>generate_icons.py\<close>\<close>

subsection \<open>Decimal rendering of integers\<close>

text \<open>
  The f-string fields \<^verbatim>\<open>{size}\<close> and \<^verbatim>\<open>{scale}\<close> render a Python \<^verbatim>\<open>int\<close> in
  decimal, with a leading minus sign for a negative number.
\<close>

definition digit_char :: "nat \<Rightarrow> char" where
  "digit_char d = ''0123456789'' ! d"

fun digits :: "nat \<Rightarrow> string" where
  "digits n = (if n < 10 then [digit_char n] else digits (n div 10) @ [digit_char (n mod 10)])"

declare digits.simps [simp del]

definition str_int :: "int \<Rightarrow> string" where
  "str_int i = (if i < 0 then CHR ''-'' # digits (nat (- i)) else digits (nat i))"

subsection \<open>Binary64 floating point\<close>

text \<open>
  A Python \<^verbatim>\<open>float\<close> is an IEEE-754 binary64 number. The pair \<open>(m, e)\<close> stands for the
  number \<open>m * 2\<^sup>e\<close>; a pair is a double when \<open>\<bar>m\<bar> \<le> 2\<^sup>5\<^sup>3\<close>. Every operation computes the
  exact result and rounds it to 53 significant bits, to nearest, ties to even. Exponents
  are unbounded here: overflow, underflow and subnormal numbers are not modelled (the
  renderer's values lie between \<open>0.06\<close> and the canvas size).
\<close>

type_synonym double = "int \<times> int"

definition valof :: "double \<Rightarrow> real" where
  "valof d = (if 0 \<le> snd d then of_int (fst d) * 2 ^ nat (snd d)
              else of_int (fst d) / 2 ^ nat (- snd d))"

definition round_half_even :: "int \<Rightarrow> nat \<Rightarrow> int" where
  "round_half_even m k =
     (let q = m div 2 ^ k; r = m mod 2 ^ k in
      if 2 * r < 2 ^ k then q
      else if 2 ^ k < 2 * r then q + 1
      else if even q then q else q + 1)"

definition rnd :: "int \<Rightarrow> int \<Rightarrow> double" where
  "rnd m e = (let k = bitlen \<bar>m\<bar> - 53 in
              if k \<le> 0 then (m, e) else (round_half_even m (nat k), e + k))"

text \<open>\<^verbatim>\<open>int * float\<close>, \<^verbatim>\<open>int - float\<close> and \<^verbatim>\<open>float / int\<close> first convert the \<^verbatim>\<open>int\<close>.\<close>

definition float_of_int :: "int \<Rightarrow> double" where
  "float_of_int n = rnd n 0"

fun fmul :: "double \<Rightarrow> double \<Rightarrow> double" where
  "fmul (m1, e1) (m2, e2) = rnd (m1 * m2) (e1 + e2)"

fun fadd :: "double \<Rightarrow> double \<Rightarrow> double" where
  "fadd (m1, e1) (m2, e2) =
     (let e = min e1 e2 in rnd (m1 * 2 ^ nat (e1 - e) + m2 * 2 ^ nat (e2 - e)) e)"

fun fsub :: "double \<Rightarrow> double \<Rightarrow> double" where
  "fsub a (m2, e2) = fadd a (- m2, e2)"

text \<open>
  Division of a double by a non-zero double: the quotient is computed to at least 56
  bits, a sticky bit records a non-zero remainder, and the result is rounded.
\<close>

fun fdiv :: "double \<Rightarrow> double \<Rightarrow> double" where
  "fdiv (m1, e1) (m2, e2) =
     (let s = nat (bitlen \<bar>m2\<bar> + 55);
          q = (\<bar>m1\<bar> * 2 ^ s) div \<bar>m2\<bar>;
          r = (\<bar>m1\<bar> * 2 ^ s) mod \<bar>m2\<bar>;
          t = 2 * q + (if r = 0 then 0 else 1);
          d = rnd t (e1 - e2 - int s - 1)
      in (sgn m1 * sgn m2 * fst d, snd d))"

text \<open>The C cast \<^verbatim>\<open>(int) x\<close> of a double truncates towards zero.\<close>

definition c_int :: "double \<Rightarrow> int" where
  "c_int d = (if 0 \<le> snd d then fst d * 2 ^ nat (snd d)
              else if 0 \<le> fst d then fst d div 2 ^ nat (- snd d)
              else - ((- fst d) div 2 ^ nat (- snd d)))"

text \<open>
  The decimal literals of the source, \<^verbatim>\<open>0.6\<close>, \<^verbatim>\<open>0.4\<close>, \<^verbatim>\<open>0.1\<close>, \<^verbatim>\<open>0.3\<close>, \<^verbatim>\<open>0.7\<close> and
  \<^verbatim>\<open>0.5\<close>: each is the double nearest to the decimal, written with its 53-bit
  significand (\<^verbatim>\<open>0.6\<close> is \<^verbatim>\<open>0x1.3333333333333p-1\<close>, and so on).
\<close>

definition lit_0_6 :: double where "lit_0_6 = (5404319552844595, - 53)"
definition lit_0_4 :: double where "lit_0_4 = (7205759403792794, - 54)"
definition lit_0_1 :: double where "lit_0_1 = (7205759403792794, - 56)"
definition lit_0_3 :: double where "lit_0_3 = (5404319552844595, - 54)"
definition lit_0_7 :: double where "lit_0_7 = (6305039478318694, - 53)"
definition lit_0_5 :: double where "lit_0_5 = (4503599627370496, - 53)"

text \<open>
  The specification speaks of percentages: \<open>p\<close> per cent of \<open>x\<close> is read as the product of
  \<open>x\<close> and the double \<open>p / 100\<close>.
\<close>

definition spec_percent :: "int \<Rightarrow> double \<Rightarrow> double" where
  "spec_percent p x = fmul x (fdiv (float_of_int p) (float_of_int 100))"

section \<open>The imaging library\<close>

subsection \<open>Images\<close>

type_synonym rgb = "nat \<times> nat \<times> nat"
type_synonym rgba = "nat \<times> nat \<times> nat \<times> nat"
type_synonym point = "int \<times> int"

datatype py_error =
  ValueError | FileNotFoundError | NotADirectoryError | IsADirectoryError | FileExistsError

text \<open>
  An image has its two dimensions and one RGBA value for every pixel \<open>(x, y)\<close> with
  \<open>0 \<le> x < xsize\<close> and \<open>0 \<le> y < ysize\<close>; there is no pixel elsewhere.
\<close>

record image =
  xsize :: int
  ysize :: int
  px :: "point \<rightharpoonup> rgba"

text \<open>
  \<^verbatim>\<open>Image.new('RGBA', (w, h), color)\<close> rejects a negative dimension and fills the
  canvas with the colour. Running out of memory is not modelled.
\<close>

definition image_new :: "int \<times> int \<Rightarrow> rgba \<Rightarrow> py_error + image" where
  "image_new dims color =
     (if fst dims < 0 \<or> snd dims < 0 then Inl ValueError
      else Inr \<lparr>xsize = fst dims, ysize = snd dims,
                px = (\<lambda>p. if 0 \<le> fst p \<and> fst p < fst dims \<and> 0 \<le> snd p \<and> snd p < snd dims
                          then Some color else None)\<rparr>)"

text \<open>An RGB fill colour drawn on an RGBA image gets alpha 255.\<close>

definition getink :: "rgb \<Rightarrow> rgba" where
  "getink c = (fst c, fst (snd c), snd (snd c), 255)"

text \<open>
  Drawing on an RGBA image through a drawing context of the same mode replaces the
  pixels a shape covers by the ink (no blending), and touches no other pixel.
\<close>

definition paint :: "image \<Rightarrow> (point \<Rightarrow> bool) \<Rightarrow> rgba \<Rightarrow> image" where
  "paint img covers ink =
     img\<lparr>px := (\<lambda>p. if px img p \<noteq> None \<and> covers p then Some ink else px img p)\<rparr>"

subsection \<open>Shapes\<close>

text \<open>
  A filled \<^verbatim>\<open>rectangle\<close> casts its four coordinates to C integers and fills every pixel
  of the box, both end points included, that lies on the image.
\<close>

definition rectangle_px :: "(double \<times> double) \<times> (double \<times> double) \<Rightarrow> point \<Rightarrow> bool" where
  "rectangle_px xy p =
     (let x0 = c_int (fst (fst xy)); y0 = c_int (snd (fst xy));
          x1 = c_int (fst (snd xy)); y1 = c_int (snd (snd xy))
      in min x0 x1 \<le> fst p \<and> fst p \<le> max x0 x1 \<and> min y0 y1 \<le> snd p \<and> snd p \<le> max y0 y1)"

text \<open>
  Which pixels a filled \<^verbatim>\<open>ellipse\<close> and a filled \<^verbatim>\<open>rounded_rectangle\<close> cover is decided
  by the library's rasterisers, whose boundary rules differ between its releases. They
  are parameters of the model: \<open>ellipse_px\<close> gets the integer bounding box,
  \<open>rounded_px\<close> the float bounding box and the radius.
\<close>

record rasteriser =
  ellipse_px :: "(int \<times> int) \<times> (int \<times> int) \<Rightarrow> point \<Rightarrow> bool"
  rounded_px :: "(double \<times> double) \<times> (double \<times> double) \<Rightarrow> double \<Rightarrow> point \<Rightarrow> bool"

datatype draw_call =
    Ellipse "(int \<times> int) \<times> (int \<times> int)" rgb
  | Rounded_rectangle "(double \<times> double) \<times> (double \<times> double)" double rgb
  | Rectangle "(double \<times> double) \<times> (double \<times> double)" rgb

fun draw :: "rasteriser \<Rightarrow> image \<Rightarrow> draw_call \<Rightarrow> image" where
  "draw R img (Ellipse xy fill) = paint img (ellipse_px R xy) (getink fill)"
| "draw R img (Rounded_rectangle xy radius fill) = paint img (rounded_px R xy radius) (getink fill)"
| "draw R img (Rectangle xy fill) = paint img (rectangle_px xy) (getink fill)"


text \<open>
  Two reference rasterisers, used to run the model: the pixels whose coordinates satisfy
  the ellipse inequality of the box, and the pixels of the box rounded outwards.
\<close>

definition ellipse_geom :: "(int \<times> int) \<times> (int \<times> int) \<Rightarrow> point \<Rightarrow> bool" where
  "ellipse_geom xy p =
     (let a = fst (snd xy) - fst (fst xy); b = snd (snd xy) - snd (fst xy);
          u = 2 * (fst p - fst (fst xy)) - a; v = 2 * (snd p - snd (fst xy)) - b
      in 0 \<le> a \<and> 0 \<le> b \<and> u * u * (b * b) + v * v * (a * a) \<le> a * a * (b * b))"

definition c_ceil :: "double \<Rightarrow> int" where
  "c_ceil d = (if 0 \<le> snd d then fst d * 2 ^ nat (snd d)
               else - ((- fst d) div 2 ^ nat (- snd d)))"

definition c_floor :: "double \<Rightarrow> int" where
  "c_floor d = (if 0 \<le> snd d then fst d * 2 ^ nat (snd d) else fst d div 2 ^ nat (- snd d))"

definition outer_box :: "(double \<times> double) \<times> (double \<times> double) \<Rightarrow> point \<Rightarrow> bool" where
  "outer_box xy p =
     (c_floor (fst (fst xy)) \<le> fst p \<and> fst p \<le> c_ceil (fst (snd xy)) \<and>
      c_floor (snd (fst xy)) \<le> snd p \<and> snd p \<le> c_ceil (snd (snd xy)))"

definition reference_rasteriser :: rasteriser where
  "reference_rasteriser = \<lparr>ellipse_px = ellipse_geom, rounded_px = (\<lambda>xy radius. outer_box xy)\<rparr>"

section \<open>The file system and the console\<close>

text \<open>
  The file system maps a path, relative to the working directory, to a directory or to a
  file holding the saved image; the working directory itself (the empty path) always
  exists. Permissions and disk space are not modelled.
\<close>

datatype node = Dir | File image

record world =
  fs :: "string \<rightharpoonup> node"
  stdout :: "string list"

text \<open>\<^verbatim>\<open>os.path.join(a, b)\<close> and \<^verbatim>\<open>os.path.dirname(p)\<close> on POSIX paths.\<close>

definition os_path_join :: "string \<Rightarrow> string \<Rightarrow> string" where
  "os_path_join a b =
     (if b \<noteq> [] \<and> hd b = CHR ''/'' then b
      else if a = [] \<or> last a = CHR ''/'' then a @ b
      else a @ ''/'' @ b)"

definition dirname :: "string \<Rightarrow> string" where
  "dirname p = rev (drop 1 (dropWhile (\<lambda>c. c \<noteq> CHR ''/'') (rev p)))"

text \<open>The path itself and its ancestors, outermost first: the directories that
  \<^verbatim>\<open>os.makedirs\<close> visits.\<close>

fun ancestors :: "string \<Rightarrow> string \<Rightarrow> string list" where
  "ancestors seen [] = (if seen = [] then [] else [seen])"
| "ancestors seen (c # cs) =
     (if c = CHR ''/'' \<and> seen \<noteq> [] then seen # ancestors (seen @ [c]) cs
      else ancestors (seen @ [c]) cs)"

text \<open>
  \<^verbatim>\<open>os.makedirs(name, exist_ok=True)\<close>: every missing directory on the way is created; a
  directory that is already there is no error; a file in the place of the last
  directory raises \<^verbatim>\<open>FileExistsError\<close>, a file in the place of an earlier one makes the
  next \<^verbatim>\<open>mkdir\<close> raise \<^verbatim>\<open>NotADirectoryError\<close>.
\<close>

fun ensure_dirs :: "string list \<Rightarrow> (string \<rightharpoonup> node) \<Rightarrow> py_error + (string \<rightharpoonup> node)" where
  "ensure_dirs [] f = Inr f"
| "ensure_dirs (d # ds) f =
     (case f d of
        None \<Rightarrow> ensure_dirs ds (f(d \<mapsto> Dir))
      | Some Dir \<Rightarrow> ensure_dirs ds f
      | Some (File _) \<Rightarrow> Inl (if ds = [] then FileExistsError else NotADirectoryError))"

definition makedirs :: "string \<Rightarrow> world \<Rightarrow> py_error + world" where
  "makedirs name w =
     (case ensure_dirs (ancestors [] name) (fs w) of
        Inl e \<Rightarrow> Inl e
      | Inr f \<Rightarrow> Inr (w\<lparr>fs := f\<rparr>))"

text \<open>
  \<^verbatim>\<open>img.save(filepath)\<close> opens the file for writing, which needs its directory, and
  replaces whatever file the path held.
\<close>

definition save :: "image \<Rightarrow> string \<Rightarrow> world \<Rightarrow> py_error + world" where
  "save img filepath w =
     (case (if dirname filepath = [] then Some Dir else fs w (dirname filepath)) of
        None \<Rightarrow> Inl FileNotFoundError
      | Some (File _) \<Rightarrow> Inl NotADirectoryError
      | Some Dir \<Rightarrow>
          (case fs w filepath of
             Some Dir \<Rightarrow> Inl IsADirectoryError
           | _ \<Rightarrow> Inr (w\<lparr>fs := (fs w)(filepath \<mapsto> File img)\<rparr>)))"

definition print :: "string \<Rightarrow> world \<Rightarrow> world" where
  "print line w = w\<lparr>stdout := stdout w @ [line]\<rparr>"

section \<open>The script\<close>

definition icon_dir :: string where
  "icon_dir = ''FileLocker/Assets.xcassets/AppIcon.appiconset''"

subsection \<open>The geometry computed by \<^verbatim>\<open>create_icon\<close>\<close>

definition lock_width :: "int \<Rightarrow> int \<Rightarrow> double" where
  "lock_width sz scale = fmul (float_of_int (sz * scale)) lit_0_6"

definition lock_height :: "int \<Rightarrow> int \<Rightarrow> double" where
  "lock_height sz scale = fmul (float_of_int (sz * scale)) lit_0_6"

definition lock_x :: "int \<Rightarrow> int \<Rightarrow> double" where
  "lock_x sz scale =
     fdiv (fsub (float_of_int (sz * scale)) (lock_width sz scale)) (float_of_int 2)"

definition lock_y :: "int \<Rightarrow> int \<Rightarrow> double" where
  "lock_y sz scale =
     fdiv (fsub (float_of_int (sz * scale)) (lock_height sz scale)) (float_of_int 2)"

definition shackle_width :: "int \<Rightarrow> int \<Rightarrow> double" where
  "shackle_width sz scale = fmul (lock_width sz scale) lit_0_1"

subsection \<open>The drawing calls, in the order of the source\<close>

definition background :: "int \<Rightarrow> int \<Rightarrow> draw_call" where
  "background sz scale = Ellipse ((0, 0), (sz * scale, sz * scale)) (0, 102, 204)"

definition lock_body :: "int \<Rightarrow> int \<Rightarrow> draw_call" where
  "lock_body sz scale =
     Rounded_rectangle
       ((lock_x sz scale, fadd (lock_y sz scale) (fmul (lock_height sz scale) lit_0_4)),
        (fadd (lock_x sz scale) (lock_width sz scale),
         fadd (lock_y sz scale) (lock_height sz scale)))
       (fmul (lock_width sz scale) lit_0_1)
       (255, 255, 255)"

definition shackle_centre :: "int \<Rightarrow> int \<Rightarrow> draw_call" where
  "shackle_centre sz scale =
     Rectangle
       ((fadd (lock_x sz scale) (fmul (lock_width sz scale) lit_0_3), lock_y sz scale),
        (fadd (lock_x sz scale) (fmul (lock_width sz scale) lit_0_7),
         fadd (lock_y sz scale) (fmul (lock_height sz scale) lit_0_5)))
       (255, 255, 255)"

definition shackle_left :: "int \<Rightarrow> int \<Rightarrow> draw_call" where
  "shackle_left sz scale =
     Rectangle
       ((fsub (fadd (lock_x sz scale) (fmul (lock_width sz scale) lit_0_3))
              (shackle_width sz scale),
         lock_y sz scale),
        (fadd (fadd (lock_x sz scale) (fmul (lock_width sz scale) lit_0_3))
              (shackle_width sz scale),
         fadd (lock_y sz scale) (fmul (lock_height sz scale) lit_0_5)))
       (255, 255, 255)"

definition shackle_right :: "int \<Rightarrow> int \<Rightarrow> draw_call" where
  "shackle_right sz scale =
     Rectangle
       ((fsub (fadd (lock_x sz scale) (fmul (lock_width sz scale) lit_0_7))
              (shackle_width sz scale),
         lock_y sz scale),
        (fadd (fadd (lock_x sz scale) (fmul (lock_width sz scale) lit_0_7))
              (shackle_width sz scale),
         fadd (lock_y sz scale) (fmul (lock_height sz scale) lit_0_5)))
       (255, 255, 255)"


definition draw_calls :: "int \<Rightarrow> int \<Rightarrow> draw_call list" where
  "draw_calls sz scale =
     [background sz scale, lock_body sz scale,
      shackle_centre sz scale, shackle_left sz scale, shackle_right sz scale]"

subsection \<open>\<^verbatim>\<open>create_icon\<close> and the entry sequence\<close>

definition canvas :: "int \<Rightarrow> int \<Rightarrow> py_error + image" where
  "canvas sz scale = image_new (sz * scale, sz * scale) (0, 0, 0, 0)"

definition rendered :: "rasteriser \<Rightarrow> int \<Rightarrow> int \<Rightarrow> py_error + image" where
  "rendered R sz scale =
     (case canvas sz scale of
        Inl e \<Rightarrow> Inl e
      | Inr img \<Rightarrow> Inr (foldl (draw R) img (draw_calls sz scale)))"

definition filename :: "int \<Rightarrow> int \<Rightarrow> string" where
  "filename sz scale =
     (''app_icon_'' @ str_int sz @ ''x'' @ str_int sz)
       @ (if 1 < scale then ''@'' @ str_int scale @ ''x'' else [])
       @ ''.png''"

definition filepath :: "int \<Rightarrow> int \<Rightarrow> string" where
  "filepath sz scale = os_path_join icon_dir (filename sz scale)"

text \<open>The message \<^verbatim>\<open>f'... {filepath}'\<close> and the final banner, as UTF-8 bytes.\<close>

definition generated_prefix :: string where
  "generated_prefix =
     map char_of [231, 148, 159, 230, 136, 144, 229, 155, 190, 230, 160, 135, 58, 32 :: nat]"

definition banner :: string where
  "banner =
     map char_of [229, 155, 190, 230, 160, 135, 231, 148, 159, 230, 136, 144,
                  229, 174, 140, 230, 136, 144, 33 :: nat]"

definition create_icon :: "rasteriser \<Rightarrow> int \<Rightarrow> int \<Rightarrow> world \<Rightarrow> py_error + world" where
  "create_icon R sz scale w =
     (case rendered R sz scale of
        Inl e \<Rightarrow> Inl e
      | Inr img \<Rightarrow>
          (case save img (filepath sz scale) w of
             Inl e \<Rightarrow> Inl e
           | Inr w' \<Rightarrow> Inr (print (generated_prefix @ filepath sz scale) w')))"

text \<open>
  The module body: \<^verbatim>\<open>os.makedirs(icon_dir, exist_ok=True)\<close> runs first, at module level;
  then the two calls of \<^verbatim>\<open>create_icon\<close> and the final \<^verbatim>\<open>print\<close>.
\<close>

definition script :: "rasteriser \<Rightarrow> world \<Rightarrow> py_error + world" where
  "script R w0 =
     (case makedirs icon_dir w0 of
        Inl e \<Rightarrow> Inl e
      | Inr w1 \<Rightarrow>
          (case create_icon R 512 1 w1 of
             Inl e \<Rightarrow> Inl e
           | Inr w2 \<Rightarrow>
               (case create_icon R 512 2 w2 of
                  Inl e \<Rightarrow> Inl e
                | Inr w3 \<Rightarrow> Inr (print banner w3))))"

definition empty_world :: world where
  "empty_world = \<lparr>fs = Map.empty, stdout = []\<rparr>"



text \<open>Reading one pixel of a rendering, and the size of the image a path holds.\<close>

definition pixel_at :: "py_error + image \<Rightarrow> point \<Rightarrow> rgba option" where
  "pixel_at r p = (case r of Inl e \<Rightarrow> None | Inr img \<Rightarrow> px img p)"

definition image_size_at :: "py_error + world \<Rightarrow> string \<Rightarrow> (int \<times> int) option" where
  "image_size_at r path =
     (case r of
        Inl e \<Rightarrow> None
      | Inr w \<Rightarrow> (case fs w path of Some (File img) \<Rightarrow> Some (xsize img, ysize img) | _ \<Rightarrow> None))"

section \<open>Properties\<close>

subsection \<open>The file name\<close>

lemma digit_char_mem: "k < 10 \<Longrightarrow> digit_char k \<in> set ''0123456789''"
  unfolding digit_char_def by (rule nth_mem) simp

lemma digits_chars: "set (digits n) \<subseteq> set ''0123456789''"
proof (induction n rule: digits.induct)
  case (1 n)
  show ?case
  proof (cases "n < 10")
    case True
    then show ?thesis using digit_char_mem[of n] by (subst digits.simps) simp
  next
    case False
    then have "set (digits (n div 10)) \<subseteq> set ''0123456789''" using 1 by simp
    moreover have "digit_char (n mod 10) \<in> set ''0123456789''" by (rule digit_char_mem) simp
    ultimately show ?thesis using False by (subst digits.simps) simp
  qed
qed

lemma at_notin_str_int: "CHR ''@'' \<notin> set (str_int i)"
  using digits_chars[of "nat i"] digits_chars[of "nat (- i)"]
  by (auto simp: str_int_def)

lemma slash_notin_str_int: "CHR ''/'' \<notin> set (str_int i)"
  using digits_chars[of "nat i"] digits_chars[of "nat (- i)"]
  by (auto simp: str_int_def)

text \<open>
  Claim C5. For every size, the composed file name is \<^verbatim>\<open>app_icon_\<close>, the size,
  \<^verbatim>\<open>x\<close>, the size and \<^verbatim>\<open>.png\<close>, with no scale suffix (no \<^verbatim>\<open>@\<close> at all), when the
  scale is 1; when the scale is greater than 1, the suffix \<^verbatim>\<open>@\<close>, the scale, \<^verbatim>\<open>x\<close>
  stands before \<^verbatim>\<open>.png\<close>.
\<close>

theorem filename_scale_suffix:
  "(scale = 1 \<longrightarrow>
      filename sz scale = ''app_icon_'' @ str_int sz @ ''x'' @ str_int sz @ ''.png'' \<and>
      CHR ''@'' \<notin> set (filename sz scale)) \<and>
   (1 < scale \<longrightarrow>
      filename sz scale =
        ''app_icon_'' @ str_int sz @ ''x'' @ str_int sz @ ''@'' @ str_int scale @ ''x'' @ ''.png'')"
  using at_notin_str_int[of sz] by (simp add: filename_def)

lemma str_int_512: "str_int 512 = ''512''" by code_simp
lemma str_int_2: "str_int 2 = ''2''" by code_simp

theorem filename_scale_suffix_witness:
  "filename 512 1 = ''app_icon_512x512.png'' \<and> CHR ''@'' \<notin> set (filename 512 1) \<and>
   filename 512 2 = ''app_icon_512x512@2x.png''"
  using filename_scale_suffix[of 1 512] filename_scale_suffix[of 2 512]
  by (simp add: str_int_512 str_int_2)

subsection \<open>The canvas\<close>

lemma canvas_ok:
  "0 \<le> sz * scale \<Longrightarrow>
   canvas sz scale =
     Inr \<lparr>xsize = sz * scale, ysize = sz * scale,
          px = (\<lambda>p. if 0 \<le> fst p \<and> fst p < sz * scale \<and> 0 \<le> snd p \<and> snd p < sz * scale
                    then Some (0, 0, 0, 0) else None)\<rparr>"
  by (simp add: canvas_def image_new_def)



subsection \<open>Files, directories and the console\<close>

lemma ancestors_icon_dir:
  "ancestors [] icon_dir =
     [''FileLocker'', ''FileLocker/Assets.xcassets'',
      ''FileLocker/Assets.xcassets/AppIcon.appiconset'']"
  by code_simp

lemma dirname_join:
  assumes "CHR ''/'' \<notin> set b"
  shows "dirname (a @ ''/'' @ b) = a"
proof -
  have "dropWhile (\<lambda>c. c \<noteq> CHR ''/'') (rev b @ CHR ''/'' # rev a) =
        dropWhile (\<lambda>c. c \<noteq> CHR ''/'') (CHR ''/'' # rev a)"
    by (rule dropWhile_append2) (use assms in auto)
  then show ?thesis by (simp add: dirname_def)
qed

lemma slash_notin_filename: "CHR ''/'' \<notin> set (filename sz scale)"
  using slash_notin_str_int[of sz] slash_notin_str_int[of scale]
  by (simp add: filename_def)

lemma filepath_eq: "filepath sz scale = icon_dir @ ''/'' @ filename sz scale"
  by (simp add: filepath_def os_path_join_def icon_dir_def filename_def)

lemma dirname_filepath: "dirname (filepath sz scale) = icon_dir"
  unfolding filepath_eq by (rule dirname_join) (rule slash_notin_filename)

lemma icon_dir_nonempty: "icon_dir \<noteq> []"
  by (simp add: icon_dir_def)

lemma filepath_not_ancestor: "filepath sz scale \<notin> set (ancestors [] icon_dir)"
proof
  assume "filepath sz scale \<in> set (ancestors [] icon_dir)"
  then have "length (filepath sz scale) \<le> length icon_dir"
    unfolding ancestors_icon_dir by (auto simp: icon_dir_def)
  then show False unfolding filepath_eq by simp
qed

lemma filepath_neq_icon_dir: "filepath sz scale \<noteq> icon_dir"
  unfolding filepath_eq by simp

lemma xsize_draw [simp]: "xsize (draw R img c) = xsize img"
  by (cases c) (simp_all add: paint_def)

lemma ysize_draw [simp]: "ysize (draw R img c) = ysize img"
  by (cases c) (simp_all add: paint_def)

lemma size_foldl_draw [simp]:
  "xsize (foldl (draw R) img cs) = xsize img \<and> ysize (foldl (draw R) img cs) = ysize img"
  by (induction cs arbitrary: img) simp_all

lemma rendered_ok:
  assumes "0 \<le> sz * scale"
  shows "\<exists>img. rendered R sz scale = Inr img \<and> xsize img = sz * scale \<and> ysize img = sz * scale"
  using assms by (simp add: rendered_def canvas_def image_new_def)

lemma rendered_error: "sz * scale < 0 \<Longrightarrow> rendered R sz scale = Inl ValueError"
  by (simp add: rendered_def canvas_def image_new_def)

lemma save_ok:
  assumes "fs w icon_dir = Some Dir" and "fs w (filepath sz scale) \<noteq> Some Dir"
  shows "save img (filepath sz scale) w =
           Inr (w\<lparr>fs := (fs w)(filepath sz scale \<mapsto> File img)\<rparr>)"
  using assms
  by (auto simp: save_def dirname_filepath icon_dir_nonempty split: option.splits node.splits)

lemma save_success:
  assumes "save img (filepath sz scale) w = Inr w'"
  shows "fs w icon_dir = Some Dir \<and> fs w (filepath sz scale) \<noteq> Some Dir \<and>
         w' = w\<lparr>fs := (fs w)(filepath sz scale \<mapsto> File img)\<rparr>"
  using assms
  by (auto simp: save_def dirname_filepath icon_dir_nonempty split: option.splits node.splits)


lemma create_icon_ok:
  assumes "rendered R sz scale = Inr img"
    and "fs w icon_dir = Some Dir" and "fs w (filepath sz scale) \<noteq> Some Dir"
  shows "create_icon R sz scale w =
           Inr (print (generated_prefix @ filepath sz scale)
                  (w\<lparr>fs := (fs w)(filepath sz scale \<mapsto> File img)\<rparr>))"
  using assms by (simp add: create_icon_def save_ok)

lemma create_icon_success:
  assumes "create_icon R sz scale w = Inr w'"
  shows "\<exists>img. rendered R sz scale = Inr img \<and>
           fs w icon_dir = Some Dir \<and> fs w (filepath sz scale) \<noteq> Some Dir \<and>
           w' = print (generated_prefix @ filepath sz scale)
                  (w\<lparr>fs := (fs w)(filepath sz scale \<mapsto> File img)\<rparr>)"
proof -
  from assms obtain img w1 where r: "rendered R sz scale = Inr img"
    and s: "save img (filepath sz scale) w = Inr w1"
    and w': "w' = print (generated_prefix @ filepath sz scale) w1"
    by (auto simp: create_icon_def split: sum.splits)
  from save_success[OF s] r w' show ?thesis by auto
qed

text \<open>
  Claim C9. A second run of the renderer with the same size and scale, after a first run
  that succeeded, succeeds as well; it writes to the same path, so the file system holds
  the same files as after the first run (the file written first is replaced, no further
  file appears), and the run prints its message once more.
\<close>

theorem create_icon_twice:
  assumes "create_icon R sz scale w = Inr w'"
  shows "\<exists>w'' img. create_icon R sz scale w' = Inr w'' \<and>
           fs w' (filepath sz scale) = Some (File img) \<and>
           fs w'' (filepath sz scale) = Some (File img) \<and>
           fs w'' = fs w' \<and>
           stdout w'' = stdout w' @ [generated_prefix @ filepath sz scale]"
proof -
  from create_icon_success[OF assms] obtain img where r: "rendered R sz scale = Inr img"
    and d: "fs w icon_dir = Some Dir"
    and w': "w' = print (generated_prefix @ filepath sz scale)
                  (w\<lparr>fs := (fs w)(filepath sz scale \<mapsto> File img)\<rparr>)"
    by blast
  have f: "fs w' = (fs w)(filepath sz scale \<mapsto> File img)"
    by (simp add: w' print_def)
  have d': "fs w' icon_dir = Some Dir"
    using d filepath_neq_icon_dir[of sz scale] by (simp add: f)
  have p': "fs w' (filepath sz scale) \<noteq> Some Dir" by (simp add: f)
  have "(fs w')(filepath sz scale \<mapsto> File img) = fs w'" by (simp add: f)
  with create_icon_ok[OF r d' p'] f show ?thesis
    by (simp add: print_def)
qed


lemma ensure_dirs_keeps_dir:
  "ensure_dirs ds f = Inr f' \<Longrightarrow> f p = Some Dir \<Longrightarrow> f' p = Some Dir"
proof (induction ds arbitrary: f)
  case Nil
  then show ?case by simp
next
  case (Cons d ds)
  show ?case
  proof (cases "f d")
    case None
    with Cons.prems have "ensure_dirs ds (f(d \<mapsto> Dir)) = Inr f'" by simp
    moreover have "(f(d \<mapsto> Dir)) p = Some Dir" using Cons.prems(2) by simp
    ultimately show ?thesis by (rule Cons.IH)
  next
    case (Some n)
    with Cons.prems have "n = Dir" and "ensure_dirs ds f = Inr f'"
      by (cases n; simp)+
    then show ?thesis using Cons.IH Cons.prems(2) by blast
  qed
qed

lemma ensure_dirs_makes_dirs:
  "ensure_dirs ds f = Inr f' \<Longrightarrow> d \<in> set ds \<Longrightarrow> f' d = Some Dir"
proof (induction ds arbitrary: f)
  case Nil
  then show ?case by simp
next
  case (Cons a ds)
  show ?case
  proof (cases "f a")
    case None
    with Cons.prems have e: "ensure_dirs ds (f(a \<mapsto> Dir)) = Inr f'" by simp
    show ?thesis
    proof (cases "d = a")
      case True
      have "(f(a \<mapsto> Dir)) a = Some Dir" by simp
      with e True show ?thesis using ensure_dirs_keeps_dir by blast
    next
      case False
      with Cons.prems(2) have "d \<in> set ds" by simp
      with e show ?thesis by (rule Cons.IH)
    qed
  next
    case (Some n)
    with Cons.prems have n: "n = Dir" and e: "ensure_dirs ds f = Inr f'"
      by (cases n; simp)+
    show ?thesis
    proof (cases "d = a")
      case True
      with Some n e show ?thesis using ensure_dirs_keeps_dir by blast
    next
      case False
      with Cons.prems(2) have "d \<in> set ds" by simp
      with e show ?thesis by (rule Cons.IH)
    qed
  qed
qed

lemma ensure_dirs_frame:
  "ensure_dirs ds f = Inr f' \<Longrightarrow> p \<notin> set ds \<Longrightarrow> f' p = f p"
proof (induction ds arbitrary: f)
  case Nil
  then show ?case by simp
next
  case (Cons a ds)
  from Cons.prems(2) have pa: "p \<noteq> a" and pds: "p \<notin> set ds" by simp_all
  show ?case
  proof (cases "f a")
    case None
    with Cons.prems have "ensure_dirs ds (f(a \<mapsto> Dir)) = Inr f'" by simp
    from Cons.IH[OF this pds] pa show ?thesis by simp
  next
    case (Some n)
    with Cons.prems have "ensure_dirs ds f = Inr f'" by (cases n; simp)
    from Cons.IH[OF this pds] show ?thesis .
  qed
qed

lemma ensure_dirs_present:
  "(\<And>d. d \<in> set ds \<Longrightarrow> f d = Some Dir) \<Longrightarrow> ensure_dirs ds f = Inr f"
  by (induction ds) simp_all

lemma makedirs_success:
  assumes "makedirs name w = Inr w'"
  shows "ensure_dirs (ancestors [] name) (fs w) = Inr (fs w') \<and> stdout w' = stdout w"
  using assms by (auto simp: makedirs_def split: sum.splits)

lemma makedirs_icon_dir:
  assumes "makedirs icon_dir w0 = Inr w1"
  shows "fs w1 icon_dir = Some Dir"
    and "makedirs icon_dir w1 = Inr w1"
    and "fs w1 (filepath sz scale) = fs w0 (filepath sz scale)"
    and "stdout w1 = stdout w0"
proof -
  from makedirs_success[OF assms]
  have e: "ensure_dirs (ancestors [] icon_dir) (fs w0) = Inr (fs w1)"
    and o: "stdout w1 = stdout w0" by simp_all
  have "icon_dir \<in> set (ancestors [] icon_dir)"
    unfolding ancestors_icon_dir by (simp add: icon_dir_def)
  with e show "fs w1 icon_dir = Some Dir" by (rule ensure_dirs_makes_dirs)
  have "ensure_dirs (ancestors [] icon_dir) (fs w1) = Inr (fs w1)"
    by (rule ensure_dirs_present) (rule ensure_dirs_makes_dirs[OF e])
  then show "makedirs icon_dir w1 = Inr w1" by (simp add: makedirs_def)
  show "fs w1 (filepath sz scale) = fs w0 (filepath sz scale)"
    using e filepath_not_ancestor by (rule ensure_dirs_frame)
  show "stdout w1 = stdout w0" by (rule o)
qed






lemma filepath_512_1:
  "filepath 512 1 = ''FileLocker/Assets.xcassets/AppIcon.appiconset/app_icon_512x512.png''"
  by code_simp

lemma filepath_512_2:
  "filepath 512 2 = ''FileLocker/Assets.xcassets/AppIcon.appiconset/app_icon_512x512@2x.png''"
  by code_simp

lemma makedirs_empty_world:
  "makedirs icon_dir empty_world =
     Inr \<lparr>fs = [''FileLocker'' \<mapsto> Dir, ''FileLocker/Assets.xcassets'' \<mapsto> Dir,
               ''FileLocker/Assets.xcassets/AppIcon.appiconset'' \<mapsto> Dir],
          stdout = []\<rparr>"
  by (simp add: makedirs_def ancestors_icon_dir empty_world_def)

text \<open>
  Claim C8. From a world in which the directory can be made and the two target paths are
  not directories, the script calls the renderer with \<open>(512, 1)\<close>, then with
  \<open>(512, 2)\<close>, then prints the banner. The file system then holds a 512 by 512 image at
  \<^verbatim>\<open>app_icon_512x512.png\<close> and a 1024 by 1024 image at \<^verbatim>\<open>app_icon_512x512@2x.png\<close>,
  both in the icon directory, and nothing else is new; the console got the two messages
  of the renderer and the banner, in this order.
\<close>

theorem script_run:
  assumes "makedirs icon_dir w0 = Inr w1"
    and "fs w0 (filepath 512 1) \<noteq> Some Dir" and "fs w0 (filepath 512 2) \<noteq> Some Dir"
  shows "\<exists>w2 w3 img1 img2.
     create_icon R 512 1 w1 = Inr w2 \<and> create_icon R 512 2 w2 = Inr w3 \<and>
     script R w0 = Inr (print banner w3) \<and>
     filepath 512 1 = ''FileLocker/Assets.xcassets/AppIcon.appiconset/app_icon_512x512.png'' \<and>
     filepath 512 2 = ''FileLocker/Assets.xcassets/AppIcon.appiconset/app_icon_512x512@2x.png'' \<and>
     fs w3 (filepath 512 1) = Some (File img1) \<and> xsize img1 = 512 \<and> ysize img1 = 512 \<and>
     fs w3 (filepath 512 2) = Some (File img2) \<and> xsize img2 = 1024 \<and> ysize img2 = 1024 \<and>
     dom (fs w3) = dom (fs w1) \<union> {filepath 512 1, filepath 512 2} \<and>
     stdout (print banner w3) =
       stdout w0 @ [generated_prefix @ filepath 512 1, generated_prefix @ filepath 512 2, banner]"
proof -
  have ne: "filepath 512 1 \<noteq> filepath 512 2"
    unfolding filepath_512_1 filepath_512_2 by simp
  obtain img1 where r1: "rendered R 512 1 = Inr img1" and x1: "xsize img1 = 512 * 1"
    and y1: "ysize img1 = 512 * 1"
    using rendered_ok[of 512 1 R] by auto
  obtain img2 where r2: "rendered R 512 2 = Inr img2" and x2: "xsize img2 = 512 * 2"
    and y2: "ysize img2 = 512 * 2"
    using rendered_ok[of 512 2 R] by auto
  note m = makedirs_icon_dir[OF assms(1)]
  let ?w2 = "print (generated_prefix @ filepath 512 1)
               (w1\<lparr>fs := (fs w1)(filepath 512 1 \<mapsto> File img1)\<rparr>)"
  let ?w3 = "print (generated_prefix @ filepath 512 2)
               (?w2\<lparr>fs := (fs ?w2)(filepath 512 2 \<mapsto> File img2)\<rparr>)"
  have d1: "fs w1 icon_dir = Some Dir" by (rule m(1))
  have n1: "fs w1 (filepath 512 1) \<noteq> Some Dir" using assms(2) by (simp add: m(3))
  have c1: "create_icon R 512 1 w1 = Inr ?w2" by (rule create_icon_ok[OF r1 d1 n1])
  have f2: "fs ?w2 = (fs w1)(filepath 512 1 \<mapsto> File img1)" by (simp add: print_def)
  have d2: "fs ?w2 icon_dir = Some Dir"
    using d1 filepath_neq_icon_dir[of 512 1] by (simp add: f2)
  have n2: "fs ?w2 (filepath 512 2) \<noteq> Some Dir"
    using assms(3) ne by (simp add: f2 m(3))
  have c2: "create_icon R 512 2 ?w2 = Inr ?w3" by (rule create_icon_ok[OF r2 d2 n2])
  have s: "script R w0 = Inr (print banner ?w3)"
    by (simp add: script_def assms(1) c1 c2)
  have f3: "fs ?w3 = (fs w1)(filepath 512 1 \<mapsto> File img1, filepath 512 2 \<mapsto> File img2)"
    by (simp add: print_def)
  have g1: "fs ?w3 (filepath 512 1) = Some (File img1)" using ne by (simp add: f3)
  have g2: "fs ?w3 (filepath 512 2) = Some (File img2)" by (simp add: f3)
  have dm: "dom (fs ?w3) = dom (fs w1) \<union> {filepath 512 1, filepath 512 2}"
    unfolding f3 by auto
  have out: "stdout (print banner ?w3) =
       stdout w0 @ [generated_prefix @ filepath 512 1, generated_prefix @ filepath 512 2, banner]"
    by (simp add: print_def m(4))
  show ?thesis
    apply (rule exI[of _ ?w2], rule exI[of _ ?w3], rule exI[of _ img1], rule exI[of _ img2])
    using c1 c2 s g1 g2 dm out x1 y1 x2 y2 filepath_512_1 filepath_512_2
    apply (intro conjI)
    apply simp_all
    done
qed

theorem script_run_witness:
  "\<exists>w. script reference_rasteriser empty_world = Inr w \<and>
     image_size_at (Inr w)
       ''FileLocker/Assets.xcassets/AppIcon.appiconset/app_icon_512x512.png'' = Some (512, 512) \<and>
     image_size_at (Inr w)
       ''FileLocker/Assets.xcassets/AppIcon.appiconset/app_icon_512x512@2x.png'' = Some (1024, 1024) \<and>
     stdout w =
       [generated_prefix @ ''FileLocker/Assets.xcassets/AppIcon.appiconset/app_icon_512x512.png'',
        generated_prefix @ ''FileLocker/Assets.xcassets/AppIcon.appiconset/app_icon_512x512@2x.png'',
        banner]"
proof -
  have a: "fs empty_world (filepath 512 1) \<noteq> Some Dir" "fs empty_world (filepath 512 2) \<noteq> Some Dir"
    by (simp_all add: empty_world_def)
  from script_run[OF makedirs_empty_world a, of reference_rasteriser]
  obtain w2 w3 img1 img2 where
    s: "script reference_rasteriser empty_world = Inr (print banner w3)"
    and p1: "filepath 512 1 = ''FileLocker/Assets.xcassets/AppIcon.appiconset/app_icon_512x512.png''"
    and p2: "filepath 512 2 = ''FileLocker/Assets.xcassets/AppIcon.appiconset/app_icon_512x512@2x.png''"
    and g1: "fs w3 (filepath 512 1) = Some (File img1)" "xsize img1 = 512" "ysize img1 = 512"
    and g2: "fs w3 (filepath 512 2) = Some (File img2)" "xsize img2 = 1024" "ysize img2 = 1024"
    and out: "stdout (print banner w3) =
       stdout empty_world @ [generated_prefix @ filepath 512 1, generated_prefix @ filepath 512 2, banner]"
    by blast
  have "fs (print banner w3) = fs w3" by (simp add: print_def)
  with s g1 g2 out show ?thesis
    unfolding p1 p2 by (simp add: image_size_at_def empty_world_def)
qed

theorem create_icon_twice_witness:
  "\<exists>w' w''. create_icon reference_rasteriser 512 1
       \<lparr>fs = [''FileLocker/Assets.xcassets/AppIcon.appiconset'' \<mapsto> Dir], stdout = []\<rparr> = Inr w' \<and>
     create_icon reference_rasteriser 512 1 w' = Inr w'' \<and> fs w'' = fs w' \<and>
     image_size_at (Inr w'')
       ''FileLocker/Assets.xcassets/AppIcon.appiconset/app_icon_512x512.png'' = Some (512, 512)"
proof -
  let ?w = "\<lparr>fs = [''FileLocker/Assets.xcassets/AppIcon.appiconset'' \<mapsto> Dir], stdout = []\<rparr>"
  obtain img where r: "rendered reference_rasteriser 512 1 = Inr img"
    and x: "xsize img = 512 * 1" "ysize img = 512 * 1"
    using rendered_ok[of 512 1 reference_rasteriser] by auto
  have d: "fs ?w icon_dir = Some Dir" by (simp add: icon_dir_def)
  have n: "fs ?w (filepath 512 1) \<noteq> Some Dir" by (simp add: filepath_512_1)
  let ?w' = "print (generated_prefix @ filepath 512 1)
               (?w\<lparr>fs := (fs ?w)(filepath 512 1 \<mapsto> File img)\<rparr>)"
  have c: "create_icon reference_rasteriser 512 1 ?w = Inr ?w'"
    by (rule create_icon_ok[OF r d n])
  from create_icon_twice[OF c] obtain w'' img' where
    c2: "create_icon reference_rasteriser 512 1 ?w' = Inr w''"
    and e: "fs w'' = fs ?w'" by blast
  have "fs w'' (filepath 512 1) = Some (File img)" by (simp add: e print_def)
  then have "image_size_at (Inr w'')
       ''FileLocker/Assets.xcassets/AppIcon.appiconset/app_icon_512x512.png'' = Some (512, 512)"
    using x by (simp add: image_size_at_def filepath_512_1)
  with c c2 e show ?thesis by blast
qed



subsection \<open>The centre pixel of the 512 by 512 icon\<close>

lemma px_paint:
  "px (paint img covers ink) p = (if px img p \<noteq> None \<and> covers p then Some ink else px img p)"
  by (simp add: paint_def)

lemma px_draw_rectangle:
  "px (draw R img (Rectangle xy fill)) p =
     (if px img p \<noteq> None \<and> rectangle_px xy p then Some (getink fill) else px img p)"
  by (simp add: px_paint)

lemma px_draw_undefined: "px (draw R img c) p = None \<longleftrightarrow> px img p = None"
  by (cases c) (simp_all add: px_paint)

lemma px_draw_defined: "px (draw R img c) p \<noteq> None \<longleftrightarrow> px img p \<noteq> None"
  unfolding px_draw_undefined ..

lemma rendered_steps:
  assumes "canvas sz scale = Inr img"
  shows "rendered R sz scale =
     Inr (draw R (draw R (draw R (draw R (draw R img (background sz scale)) (lock_body sz scale))
            (shackle_centre sz scale)) (shackle_left sz scale)) (shackle_right sz scale))"
  by (simp add: rendered_def assms draw_calls_def)

lemma bars_512:
  "c_int (lock_y 512 1) = 102"
  "c_int (fadd (lock_y 512 1) (fmul (lock_height 512 1) lit_0_5)) = 256"
  "c_int (fadd (lock_x 512 1) (fmul (lock_width 512 1) lit_0_3)) = 194"
  "c_int (fadd (lock_x 512 1) (fmul (lock_width 512 1) lit_0_7)) = 317"
  "c_int (fsub (fadd (lock_x 512 1) (fmul (lock_width 512 1) lit_0_3)) (shackle_width 512 1)) = 163"
  "c_int (fadd (fadd (lock_x 512 1) (fmul (lock_width 512 1) lit_0_3)) (shackle_width 512 1)) = 225"
  "c_int (fsub (fadd (lock_x 512 1) (fmul (lock_width 512 1) lit_0_7)) (shackle_width 512 1)) = 286"
  "c_int (fadd (fadd (lock_x 512 1) (fmul (lock_width 512 1) lit_0_7)) (shackle_width 512 1)) = 348"
  by code_simp+

lemma canvas_512: "px img0 (256, 256) = Some (0, 0, 0, 0)" if "canvas 512 1 = Inr img0"
  using that canvas_ok[of 512 1] by auto

text \<open>
  Claim C1 as stated fails: after all drawing steps of the 512 by 512 rendering, the
  centre pixel does not hold the blue of the background.
\<close>

theorem centre_pixel_is_blue_counterexample:
  "pixel_at (rendered reference_rasteriser 512 1) (256, 256) \<noteq> Some (getink (0, 102, 204))"
  by code_simp

text \<open>
  Claim C1, as the code has it. Whatever the rasterisers of the ellipse and of the rounded
  rectangle do, the centre pixel \<open>(256, 256)\<close> of the finished 512 by 512 rendering is
  opaque white: the central bar of the shackle (columns 194 to 317, rows 102 to 256)
  covers it and neither side bar does. The blue \<open>(0, 102, 204)\<close> is at the centre only
  between the background step and the lock steps, when the ellipse covers its centre.
\<close>

theorem centre_pixel_512:
  "pixel_at (rendered R 512 1) (256, 256) = Some (255, 255, 255, 255) \<and>
   (ellipse_px R ((0, 0), (512, 512)) (256, 256) \<longrightarrow>
      (\<exists>img. canvas 512 1 = Inr img \<and>
         px (draw R img (background 512 1)) (256, 256) = Some (0, 102, 204, 255)))"
proof -
  obtain img where c: "canvas 512 1 = Inr img" and p: "px img (256, 256) = Some (0, 0, 0, 0)"
    using canvas_ok[of 512 1] by auto
  let ?i1 = "draw R img (background 512 1)"
  let ?i2 = "draw R ?i1 (lock_body 512 1)"
  have d2: "px ?i2 (256, 256) \<noteq> None"
    unfolding px_draw_defined using p by simp
  let ?i3 = "draw R ?i2 (shackle_centre 512 1)"
  have p3: "px ?i3 (256, 256) = Some (255, 255, 255, 255)"
    unfolding shackle_centre_def px_draw_rectangle using d2
    by (simp add: rectangle_px_def bars_512 getink_def)
  let ?i4 = "draw R ?i3 (shackle_left 512 1)"
  have p4: "px ?i4 (256, 256) = Some (255, 255, 255, 255)"
    unfolding shackle_left_def px_draw_rectangle using p3
    by (simp add: rectangle_px_def bars_512 getink_def)
  let ?i5 = "draw R ?i4 (shackle_right 512 1)"
  have p5: "px ?i5 (256, 256) = Some (255, 255, 255, 255)"
    unfolding shackle_right_def px_draw_rectangle using p4
    by (simp add: rectangle_px_def bars_512 getink_def)
  have "rendered R 512 1 = Inr ?i5" by (rule rendered_steps[OF c])
  with p5 have a: "pixel_at (rendered R 512 1) (256, 256) = Some (255, 255, 255, 255)"
    by (simp add: pixel_at_def)
  have b: "px ?i1 (256, 256) = Some (0, 102, 204, 255)"
    if "ellipse_px R ((0, 0), (512, 512)) (256, 256)"
    using that p by (simp add: background_def px_paint getink_def)
  from a b c show ?thesis by blast
qed

theorem centre_pixel_512_witness:
  "pixel_at (rendered reference_rasteriser 512 1) (256, 256) = Some (255, 255, 255, 255) \<and>
   (\<exists>img. canvas 512 1 = Inr img \<and>
      px (draw reference_rasteriser img (background 512 1)) (256, 256) = Some (0, 102, 204, 255))"
proof -
  have "ellipse_px reference_rasteriser ((0, 0), (512, 512)) (256, 256)"
    by (simp add: reference_rasteriser_def ellipse_geom_def)
  with centre_pixel_512[of reference_rasteriser] show ?thesis by blast
qed

subsection \<open>Rounding: error bound and exact cases\<close>

lemma valof_powi: "valof (m, e) = of_int m * 2 powi e"
  by (simp add: valof_def power_int_def field_simps)

lemma round_half_even_near:
  "2 * \<bar>round_half_even m k * 2 ^ k - m\<bar> \<le> 2 ^ k"
proof -
  define q where "q = m div 2 ^ k"
  define r where "r = m mod 2 ^ k"
  have m: "m = q * 2 ^ k + r" unfolding q_def r_def by (rule div_mult_mod_eq[symmetric])
  have r: "0 \<le> r" "r < 2 ^ k" by (simp_all add: r_def)
  have c: "round_half_even m k = q \<and> 2 * r \<le> 2 ^ k \<or> round_half_even m k = q + 1 \<and> 2 ^ k \<le> 2 * r"
    by (auto simp: round_half_even_def Let_def q_def r_def)
  then show ?thesis
  proof
    assume "round_half_even m k = q \<and> 2 * r \<le> 2 ^ k"
    then show ?thesis using r m by simp
  next
    assume a: "round_half_even m k = q + 1 \<and> 2 ^ k \<le> 2 * r"
    then have "round_half_even m k * 2 ^ k - m = 2 ^ k - r" using m by (simp add: algebra_simps)
    then show ?thesis using a r by simp
  qed
qed

lemma round_half_even_range:
  "m div 2 ^ k \<le> round_half_even m k \<and> round_half_even m k \<le> m div 2 ^ k + 1"
  by (simp add: round_half_even_def Let_def)

lemma round_half_even_exact: "2 ^ k dvd m \<Longrightarrow> round_half_even m k = m div 2 ^ k"
  by (simp add: round_half_even_def Let_def mod_eq_0_iff_dvd)

lemma bitlen_le_53: "\<bar>m\<bar> < 2 ^ 53 \<Longrightarrow> bitlen \<bar>m\<bar> \<le> 53"
  by (simp add: bitlen_le_iff_power)

lemma rnd_small: "\<bar>m\<bar> < 2 ^ 53 \<Longrightarrow> rnd m e = (m, e)"
  using bitlen_le_53[of m] by (simp add: rnd_def)

lemma float_of_int_exact: "\<bar>n\<bar> < 2 ^ 53 \<Longrightarrow> float_of_int n = (n, 0)"
  by (simp add: float_of_int_def rnd_small)


lemma powi_add_nat: "0 \<le> k \<Longrightarrow> (2::real) powi (e + k) = 2 ^ nat k * 2 powi e"
proof -
  assume k: "0 \<le> k"
  have "(2::real) powi (e + k) = 2 powi e * 2 powi k" by (rule power_int_add) simp
  moreover have "(2::real) powi k = 2 ^ nat k" using k by (simp add: power_int_def)
  ultimately show ?thesis by simp
qed

lemma div_pow2_bounds:
  fixes m c :: int
  shows "m < c * 2 ^ K \<Longrightarrow> m div 2 ^ K < c"
    and "c * 2 ^ K \<le> m \<Longrightarrow> c \<le> m div 2 ^ K"
proof -
  define q where "q = m div 2 ^ K"
  define r where "r = m mod 2 ^ K"
  have m: "m = q * 2 ^ K + r" unfolding q_def r_def by (rule div_mult_mod_eq[symmetric])
  have r: "0 \<le> r" "r < 2 ^ K" by (simp_all add: r_def)
  have p: "(0::int) < 2 ^ K" by simp
  show "m div 2 ^ K < c" if "m < c * 2 ^ K"
  proof -
    have "q * 2 ^ K < c * 2 ^ K" using that m r by linarith
    then show ?thesis unfolding q_def[symmetric] using p by (simp only: mult_less_cancel_right_pos)
  qed
  show "c \<le> m div 2 ^ K" if "c * 2 ^ K \<le> m"
  proof -
    have "(q + 1) * 2 ^ K = q * 2 ^ K + 2 ^ K" by (simp add: algebra_simps)
    then have "c * 2 ^ K < (q + 1) * 2 ^ K" using that m r by linarith
    then have "c < q + 1" using p by (simp only: mult_less_cancel_right_pos)
    then show ?thesis unfolding q_def by simp
  qed
qed

lemma rnd_cases:
  obtains (small) "bitlen \<bar>m\<bar> \<le> 53" "rnd m e = (m, e)"
  | (large) K where "0 < K" "bitlen \<bar>m\<bar> = 53 + int K"
      "rnd m e = (round_half_even m K, e + int K)"
proof (cases "bitlen \<bar>m\<bar> \<le> 53")
  case True
  then show ?thesis using small by (simp add: rnd_def)
next
  case False
  define K where "K = nat (bitlen \<bar>m\<bar> - 53)"
  have "0 < K" "bitlen \<bar>m\<bar> = 53 + int K" using False by (simp_all add: K_def)
  moreover have "rnd m e = (round_half_even m K, e + int K)"
    using False by (simp add: rnd_def K_def Let_def)
  ultimately show ?thesis by (rule large)
qed

lemma bitlen_large_bounds:
  assumes "bitlen \<bar>m\<bar> = 53 + int K"
  shows "2 ^ (52 + K) \<le> \<bar>m\<bar>" and "\<bar>m\<bar> < 2 ^ (53 + K)"
proof -
  have pos: "0 < \<bar>m\<bar>" using assms bitlen_eq_zero_iff[of "\<bar>m\<bar>"] by (cases "m = 0") auto
  from bitlen_bounds[OF pos] have "2 ^ nat (bitlen \<bar>m\<bar> - 1) \<le> \<bar>m\<bar>"
    and "\<bar>m\<bar> < 2 ^ nat (bitlen \<bar>m\<bar>)" by simp_all
  moreover have "nat (bitlen \<bar>m\<bar> - 1) = 52 + K" "nat (bitlen \<bar>m\<bar>) = 53 + K"
    using assms by simp_all
  ultimately show "2 ^ (52 + K) \<le> \<bar>m\<bar>" and "\<bar>m\<bar> < 2 ^ (53 + K)" by simp_all
qed

lemma rnd_error:
  "\<bar>valof (rnd m e) - of_int m * 2 powi e\<bar> \<le> \<bar>of_int m * 2 powi e\<bar> / 2 ^ 53"
proof (cases m e rule: rnd_cases)
  case small
  then show ?thesis by (simp add: valof_powi)
next
  case (large K)
  let ?q = "round_half_even m K"
  have p: "(0::real) < 2 powi e" by simp
  from bitlen_large_bounds[OF large(2)] have "(2::int) ^ (52 + K) \<le> \<bar>m\<bar>" by simp
  then have "2 ^ K * (2::int) ^ 52 \<le> \<bar>m\<bar>" by (simp add: power_add mult.commute)
  moreover have "2 * \<bar>?q * 2 ^ K - m\<bar> \<le> 2 ^ K" by (rule round_half_even_near)
  ultimately have "2 ^ 53 * \<bar>?q * 2 ^ K - m\<bar> \<le> \<bar>m\<bar>" by simp
  then have "real_of_int (2 ^ 53 * \<bar>?q * 2 ^ K - m\<bar>) \<le> real_of_int \<bar>m\<bar>"
    by (rule of_int_le_iff[THEN iffD2])
  then have i: "\<bar>of_int ?q * 2 ^ K - real_of_int m\<bar> \<le> \<bar>real_of_int m\<bar> / 2 ^ 53"
    by (simp add: field_simps)
  have "valof (rnd m e) - of_int m * 2 powi e = (of_int ?q * 2 ^ K - of_int m) * 2 powi e"
    by (simp add: large(3) valof_powi powi_add_nat algebra_simps)
  then have "\<bar>valof (rnd m e) - of_int m * 2 powi e\<bar> = \<bar>of_int ?q * 2 ^ K - real_of_int m\<bar> * 2 powi e"
    by (simp add: abs_mult)
  also have "\<dots> \<le> \<bar>real_of_int m\<bar> / 2 ^ 53 * 2 powi e"
    using i p by (simp add: mult_right_mono)
  finally show ?thesis by (simp add: abs_mult)
qed

lemma rnd_mantissa_le: "\<bar>fst (rnd m e)\<bar> \<le> 2 ^ 53"
proof (cases m e rule: rnd_cases)
  case small
  then have "\<bar>m\<bar> < 2 ^ nat 53" using bitlen_le_iff_power[of "\<bar>m\<bar>" 53] by simp
  with small show ?thesis by simp
next
  case (large K)
  let ?q = "m div 2 ^ K"
  from bitlen_large_bounds[OF large(2)] have b: "\<bar>m\<bar> < 2 ^ 53 * 2 ^ K" by (simp add: power_add)
  have "m < 2 ^ 53 * 2 ^ K" using b by simp
  then have u: "?q < 2 ^ 53" by (rule div_pow2_bounds)
  have "(- (2 ^ 53)) * 2 ^ K \<le> m" using b by simp
  then have l: "- (2 ^ 53) \<le> ?q" by (rule div_pow2_bounds)
  from round_half_even_range[of m K] u l have "\<bar>round_half_even m K\<bar> \<le> 2 ^ 53"
    by linarith
  then show ?thesis by (simp add: large(3))
qed

lemma rnd_value_exact:
  assumes "m = a * 2 ^ j" and "\<bar>a\<bar> < 2 ^ 53"
  shows "valof (rnd m e) = of_int m * 2 powi e"
proof (cases m e rule: rnd_cases)
  case small
  then show ?thesis by (simp add: valof_powi)
next
  case (large K)
  have a0: "a \<noteq> 0" using large(2) assms(1) by auto
  have "bitlen \<bar>m\<bar> = bitlen (\<bar>a\<bar> * 2 ^ j)" by (simp add: assms(1) abs_mult)
  also have "\<dots> = bitlen \<bar>a\<bar> + int j" using a0 by simp
  finally have "53 + int K \<le> 53 + int j" using large(2) bitlen_le_53[OF assms(2)] by simp
  then have "K \<le> j" by simp
  then have d: "(2::int) ^ K dvd m" by (simp add: assms(1) le_imp_power_dvd)
  then have "round_half_even m K * 2 ^ K = m" by (simp add: round_half_even_exact)
  then have "real_of_int (round_half_even m K) * 2 ^ K = of_int m"
    by (metis of_int_mult of_int_numeral of_int_power)
  then show ?thesis by (simp add: large(3) valof_powi powi_add_nat)
qed

subsection \<open>The arithmetic operations\<close>

lemma valof_mult: "valof (m1, e1) * valof (m2, e2) = of_int (m1 * m2) * 2 powi (e1 + e2)"
  by (simp add: valof_powi power_int_add)

lemma fmul_error:
  "\<bar>valof (fmul a b) - valof a * valof b\<bar> \<le> \<bar>valof a * valof b\<bar> / 2 ^ 53"
proof -
  obtain m1 e1 m2 e2 where a: "a = (m1, e1)" and b: "b = (m2, e2)"
    by (cases a, cases b) blast
  show ?thesis unfolding a b valof_mult fmul.simps by (rule rnd_error)
qed

lemma aligned_sum:
  "of_int (m1 * 2 ^ nat (e1 - min e1 e2) + m2 * 2 ^ nat (e2 - min e1 e2)) * 2 powi (min e1 e2) =
   valof (m1, e1) + valof (m2, e2)"
proof -
  let ?e = "min e1 e2"
  have "(2::real) powi (?e + (e1 - ?e)) = 2 ^ nat (e1 - ?e) * 2 powi ?e"
    by (rule powi_add_nat) simp
  then have 1: "(2::real) ^ nat (e1 - ?e) * 2 powi ?e = 2 powi e1" by simp
  have "(2::real) powi (?e + (e2 - ?e)) = 2 ^ nat (e2 - ?e) * 2 powi ?e"
    by (rule powi_add_nat) simp
  then have 2: "(2::real) ^ nat (e2 - ?e) * 2 powi ?e = 2 powi e2" by simp
  have "real_of_int (m1 * 2 ^ nat (e1 - ?e) + m2 * 2 ^ nat (e2 - ?e)) * 2 powi ?e =
        of_int m1 * (2 ^ nat (e1 - ?e) * 2 powi ?e) + of_int m2 * (2 ^ nat (e2 - ?e) * 2 powi ?e)"
    by (simp add: algebra_simps)
  also have "\<dots> = of_int m1 * 2 powi e1 + of_int m2 * 2 powi e2" unfolding 1 2 ..
  finally show ?thesis by (simp add: valof_powi)
qed

lemma fadd_error:
  "\<bar>valof (fadd a b) - (valof a + valof b)\<bar> \<le> \<bar>valof a + valof b\<bar> / 2 ^ 53"
proof -
  obtain m1 e1 m2 e2 where a: "a = (m1, e1)" and b: "b = (m2, e2)"
    by (cases a, cases b) blast
  show ?thesis unfolding a b fadd.simps Let_def aligned_sum[symmetric] by (rule rnd_error)
qed

lemma valof_neg: "valof (- m, e) = - valof (m, e)"
  by (simp add: valof_powi)

lemma fsub_error:
  "\<bar>valof (fsub a b) - (valof a - valof b)\<bar> \<le> \<bar>valof a - valof b\<bar> / 2 ^ 53"
proof -
  obtain m2 e2 where b: "b = (m2, e2)" by (cases b) blast
  show ?thesis using fadd_error[of a "(- m2, e2)"] unfolding b fsub.simps valof_neg by simp
qed

lemma bitlen_2: "bitlen 2 = 2"
  by code_simp

lemma fdiv_two:
  assumes "0 \<le> m" and "m < 2 ^ 53"
  shows "valof (fdiv (m, e) (float_of_int 2)) = valof (m, e) / 2"
proof -
  have f2: "float_of_int 2 = (2, 0)" by (rule float_of_int_exact) simp
  let ?t = "m * 2 ^ 57"
  have q: "(\<bar>m\<bar> * 2 ^ 57) div \<bar>2\<bar> = m * 2 ^ 56" "(\<bar>m\<bar> * 2 ^ 57) mod \<bar>2\<bar> = 0"
    using assms(1) by simp_all
  have d: "fdiv (m, e) (2, 0) = (sgn m * sgn 2 * fst (rnd ?t (e - 58)), snd (rnd ?t (e - 58)))"
    using q by (simp add: bitlen_2 Let_def mult.commute)
  have v: "valof (rnd ?t (e - 58)) = of_int ?t * 2 powi (e - 58)"
    by (rule rnd_value_exact[of _ m 57]) (use assms in simp_all)
  have "(2::real) powi (e - 58 + 57) = 2 ^ nat 57 * 2 powi (e - 58)" by (rule powi_add_nat) simp
  then have p: "(2::real) ^ 57 * 2 powi (e - 58) = 2 powi (e - 1)" by simp
  have h: "(2::real) powi (e - 1) = 2 powi e / 2" by (simp add: power_int_diff)
  show ?thesis
  proof (cases "m = 0")
    case True
    then show ?thesis by (simp add: f2 valof_powi Let_def)
  next
    case False
    then have "sgn m * sgn 2 = 1" using assms(1) by simp
    then have "fdiv (m, e) (2, 0) = rnd ?t (e - 58)" unfolding d by simp
    then have "valof (fdiv (m, e) (float_of_int 2)) = of_int m * (2 ^ 57 * 2 powi (e - 58))"
      using v by (simp add: f2)
    then show ?thesis unfolding p h by (simp add: valof_powi)
  qed
qed

subsection \<open>Width and offset of the lock rectangle\<close>

lemma rnd_exponent_le:
  assumes "\<bar>m\<bar> < 2 ^ (53 + j)"
  shows "snd (rnd m e) \<le> e + int j"
proof (cases m e rule: rnd_cases)
  case small
  then show ?thesis by simp
next
  case (large K)
  from bitlen_large_bounds[OF large(2)] have "(2::int) ^ (52 + K) \<le> \<bar>m\<bar>" by simp
  with assms have "(2::int) ^ (52 + K) < 2 ^ (53 + j)" by linarith
  then have "52 + K < 53 + j" by (simp only: power_strict_increasing_iff) 
  then show ?thesis by (simp add: large(3))
qed

lemma valof_lit_0_6: "valof lit_0_6 = 5404319552844595 / 2 ^ 53"
  by (simp add: valof_def lit_0_6_def)

lemma valof_float_of_int: "\<bar>n\<bar> < 2 ^ 53 \<Longrightarrow> valof (float_of_int n) = of_int n"
  by (simp add: float_of_int_exact valof_def)

lemma rel_err_bounds:
  fixes x y :: real
  assumes "\<bar>x - y\<bar> \<le> \<bar>y\<bar> / 2 ^ 53" and "0 \<le> y"
  shows "y - y / 2 ^ 53 \<le> x" and "x \<le> y + y / 2 ^ 53"
proof -
  have "\<bar>y\<bar> = y" using assms(2) by simp
  with assms(1) have "\<bar>x - y\<bar> \<le> y / 2 ^ 53" by simp
  then show "y - y / 2 ^ 53 \<le> x" and "x \<le> y + y / 2 ^ 53" by linarith+
qed

lemma width_value:
  assumes "0 < n" and "n < 2 ^ 53"
  defines "w \<equiv> fmul (float_of_int n) lit_0_6"
  shows "\<bar>valof w - 6 / 10 * of_int n\<bar> \<le> of_int n / 2 ^ 53"
    and "\<bar>fst w\<bar> \<le> 2 ^ 53"
    and "snd w \<le> 0"
proof -
  have f: "float_of_int n = (n, 0)" by (rule float_of_int_exact) (use assms in simp)
  have w: "w = rnd (n * 5404319552844595) (- 53)"
    by (simp add: w_def f lit_0_6_def)
  have v: "valof (float_of_int n) = of_int n" by (rule valof_float_of_int) (use assms in simp)
  have n: "0 < real_of_int n" using assms(1) by simp
  have "\<bar>valof w - real_of_int n * (5404319552844595 / 2 ^ 53)\<bar>
          \<le> \<bar>real_of_int n * (5404319552844595 / 2 ^ 53)\<bar> / 2 ^ 53"
    using fmul_error[of "float_of_int n" lit_0_6] unfolding w_def v valof_lit_0_6 .
  from rel_err_bounds[OF this] n
  show "\<bar>valof w - 6 / 10 * of_int n\<bar> \<le> of_int n / 2 ^ 53"
    by (intro abs_leI) simp_all
  show "\<bar>fst w\<bar> \<le> 2 ^ 53" unfolding w by (rule rnd_mantissa_le)
  have "\<bar>n * 5404319552844595\<bar> < 2 ^ (53 + 53)" using assms by (simp add: abs_mult)
  from rnd_exponent_le[OF this, of "- 53"] show "snd w \<le> 0" unfolding w by simp
qed

lemma width_range:
  assumes "0 < n" and "n < 2 ^ 53"
  shows "59 / 100 * real_of_int n \<le> valof (fmul (float_of_int n) lit_0_6)"
    and "valof (fmul (float_of_int n) lit_0_6) \<le> 61 / 100 * real_of_int n"
proof -
  have n: "0 < real_of_int n" using assms(1) by simp
  have "\<bar>valof (fmul (float_of_int n) lit_0_6) - 6 / 10 * of_int n\<bar> \<le> of_int n / 2 ^ 53"
    by (rule width_value(1)[OF assms])
  then have "valof (fmul (float_of_int n) lit_0_6) - 6 / 10 * of_int n \<le> of_int n / 2 ^ 53"
    and "6 / 10 * of_int n - valof (fmul (float_of_int n) lit_0_6) \<le> of_int n / 2 ^ 53"
    by linarith+
  then show "59 / 100 * real_of_int n \<le> valof (fmul (float_of_int n) lit_0_6)"
    and "valof (fmul (float_of_int n) lit_0_6) \<le> 61 / 100 * real_of_int n"
    using n by simp_all
qed

lemma offset_value:
  assumes "0 < n" and "n < 2 ^ 53"
  defines "w \<equiv> fmul (float_of_int n) lit_0_6"
  defines "x \<equiv> fdiv (fsub (float_of_int n) w) (float_of_int 2)"
  shows "valof x = (of_int n - valof w) / 2"
proof -
  obtain mw ew where w: "w = (mw, ew)" by (cases w) blast
  have f: "float_of_int n = (n, 0)" by (rule float_of_int_exact) (use assms in simp)
  from width_value[OF assms(1,2)] have mw: "\<bar>mw\<bar> \<le> 2 ^ 53" and ew: "ew \<le> 0"
    unfolding w_def[symmetric] w by simp_all
  from width_range[OF assms(1,2)] have r: "59 / 100 * real_of_int n \<le> valof w"
    "valof w \<le> 61 / 100 * real_of_int n" unfolding w_def[symmetric] by simp_all
  define M where "M = n * 2 ^ nat (0 - min 0 ew) + (- mw) * 2 ^ nat (ew - min 0 ew)"
  have s: "fsub (float_of_int n) w = rnd M (min 0 ew)"
    by (simp add: f w M_def Let_def)
  have a: "real_of_int M * 2 powi (min 0 ew) = of_int n - valof w"
    unfolding M_def aligned_sum w valof_neg by (simp add: valof_def)
  have p: "(0::real) < 2 powi (min 0 ew)" by simp
  have n: "0 < real_of_int n" using assms(1) by simp
  have "valof w = of_int mw * 2 powi (min 0 ew)" using ew by (simp add: w valof_powi min_def)
  also have "\<dots> \<le> 2 ^ 53 * 2 powi (min 0 ew)"
  proof -
    have "real_of_int mw \<le> real_of_int (2 ^ 53)" using mw by (intro of_int_le_iff[THEN iffD2]) simp
    then show ?thesis using p by (simp add: mult_right_mono)
  qed
  finally have "real_of_int M * 2 powi (min 0 ew) < 2 ^ 53 * 2 powi (min 0 ew)"
    using a r n by linarith
  then have "real_of_int M < 2 ^ 53" using p by (simp only: mult_less_cancel_right_pos)
  then have M1: "M < 2 ^ 53" by (metis of_int_less_iff of_int_numeral of_int_power)
  have "0 \<le> real_of_int M * 2 powi (min 0 ew)" using a r n by linarith
  then have "0 \<le> real_of_int M" using p by (simp add: zero_le_mult_iff)
  then have M0: "0 \<le> M" by simp
  have "rnd M (min 0 ew) = (M, min 0 ew)" by (rule rnd_small) (use M0 M1 in simp)
  then have "x = fdiv (M, min 0 ew) (float_of_int 2)" by (simp add: x_def s)
  then have "valof x = valof (M, min 0 ew) / 2" using fdiv_two[OF M0 M1] by simp
  then show ?thesis using a by (simp add: valof_powi)
qed

subsection \<open>The literals and the percentages of the specification\<close>

lemma literals_nearest:
  "lit_0_6 = fdiv (float_of_int 6) (float_of_int 10)"
  "lit_0_4 = fdiv (float_of_int 4) (float_of_int 10)"
  "lit_0_1 = fdiv (float_of_int 1) (float_of_int 10)"
  "lit_0_3 = fdiv (float_of_int 3) (float_of_int 10)"
  "lit_0_7 = fdiv (float_of_int 7) (float_of_int 10)"
  "lit_0_5 = fdiv (float_of_int 5) (float_of_int 10)"
  by code_simp+

lemma spec_percent_literals:
  "spec_percent 60 x = fmul x lit_0_6"
  "spec_percent 40 x = fmul x lit_0_4"
  "spec_percent 10 x = fmul x lit_0_1"
  "spec_percent 30 x = fmul x lit_0_3"
  "spec_percent 70 x = fmul x lit_0_7"
  "spec_percent 50 x = fmul x lit_0_5"
proof -
  have "fdiv (float_of_int 60) (float_of_int 100) = lit_0_6"
    "fdiv (float_of_int 40) (float_of_int 100) = lit_0_4"
    "fdiv (float_of_int 10) (float_of_int 100) = lit_0_1"
    "fdiv (float_of_int 30) (float_of_int 100) = lit_0_3"
    "fdiv (float_of_int 70) (float_of_int 100) = lit_0_7"
    "fdiv (float_of_int 50) (float_of_int 100) = lit_0_5"
    by code_simp+
  then show "spec_percent 60 x = fmul x lit_0_6"
  "spec_percent 40 x = fmul x lit_0_4"
  "spec_percent 10 x = fmul x lit_0_1"
  "spec_percent 30 x = fmul x lit_0_3"
  "spec_percent 70 x = fmul x lit_0_7"
  "spec_percent 50 x = fmul x lit_0_5"
    by (simp_all add: spec_percent_def)
qed


subsection \<open>Bounds of every coordinate the renderer computes\<close>

lemma fmul_lit:
  assumes "valof L = c" and "0 \<le> c" and "0 \<le> valof x"
  shows "valof x * c - valof x * c / 2 ^ 53 \<le> valof (fmul x L)"
    and "valof (fmul x L) \<le> valof x * c + valof x * c / 2 ^ 53"
proof -
  have "0 \<le> valof x * c" using assms(2,3) by simp
  from rel_err_bounds[OF _ this, of "valof (fmul x L)"] fmul_error[of x L]
  show "valof x * c - valof x * c / 2 ^ 53 \<le> valof (fmul x L)"
    and "valof (fmul x L) \<le> valof x * c + valof x * c / 2 ^ 53"
    unfolding assms(1) by simp_all
qed

lemma fadd_pos:
  assumes "0 \<le> valof a + valof b"
  shows "(valof a + valof b) - (valof a + valof b) / 2 ^ 53 \<le> valof (fadd a b)"
    and "valof (fadd a b) \<le> (valof a + valof b) + (valof a + valof b) / 2 ^ 53"
  using rel_err_bounds[OF fadd_error assms] by simp_all

lemma fsub_pos:
  assumes "0 \<le> valof a - valof b"
  shows "(valof a - valof b) - (valof a - valof b) / 2 ^ 53 \<le> valof (fsub a b)"
    and "valof (fsub a b) \<le> (valof a - valof b) + (valof a - valof b) / 2 ^ 53"
  using rel_err_bounds[OF fsub_error assms] by simp_all

lemma valof_literals:
  "valof lit_0_4 = 7205759403792794 / 2 ^ 54"
  "valof lit_0_1 = 7205759403792794 / 2 ^ 56"
  "valof lit_0_3 = 5404319552844595 / 2 ^ 54"
  "valof lit_0_7 = 6305039478318694 / 2 ^ 53"
  "valof lit_0_5 = 1 / 2"
  by (simp_all add: valof_def lit_0_4_def lit_0_1_def lit_0_3_def lit_0_7_def lit_0_5_def)

lemma lock_height_eq: "lock_height sz scale = lock_width sz scale"
  by (simp add: lock_height_def lock_width_def)

lemma lock_y_eq: "lock_y sz scale = lock_x sz scale"
  by (simp add: lock_y_def lock_x_def lock_height_eq)

lemma geometry_bounds:
  assumes "n = sz * scale" and "0 < n" and "n < 2 ^ 53"
  shows "6 / 10 * real_of_int n - real_of_int n / 2 ^ 53 \<le> valof (lock_width sz scale)"
    and "valof (lock_width sz scale) \<le> 6 / 10 * real_of_int n + real_of_int n / 2 ^ 53"
    and "2 / 10 * real_of_int n - real_of_int n / 2 ^ 53 \<le> valof (lock_x sz scale)"
    and "valof (lock_x sz scale) \<le> 2 / 10 * real_of_int n + real_of_int n / 2 ^ 53"
    and "24 / 100 * real_of_int n - real_of_int n / 2 ^ 52
        \<le> valof (fmul (lock_width sz scale) lit_0_4)"
    and "valof (fmul (lock_width sz scale) lit_0_4)
        \<le> 24 / 100 * real_of_int n + real_of_int n / 2 ^ 52"
    and "44 / 100 * real_of_int n - real_of_int n / 2 ^ 51
        \<le> valof (fadd (lock_x sz scale) (fmul (lock_width sz scale) lit_0_4))"
    and "valof (fadd (lock_x sz scale) (fmul (lock_width sz scale) lit_0_4))
        \<le> 44 / 100 * real_of_int n + real_of_int n / 2 ^ 51"
    and "8 / 10 * real_of_int n - real_of_int n / 2 ^ 51
        \<le> valof (fadd (lock_x sz scale) (lock_width sz scale))"
    and "valof (fadd (lock_x sz scale) (lock_width sz scale))
        \<le> 8 / 10 * real_of_int n + real_of_int n / 2 ^ 51"
    and "6 / 100 * real_of_int n - real_of_int n / 2 ^ 52
        \<le> valof (fmul (lock_width sz scale) lit_0_1)"
    and "valof (fmul (lock_width sz scale) lit_0_1)
        \<le> 6 / 100 * real_of_int n + real_of_int n / 2 ^ 52"
    and "18 / 100 * real_of_int n - real_of_int n / 2 ^ 52
        \<le> valof (fmul (lock_width sz scale) lit_0_3)"
    and "valof (fmul (lock_width sz scale) lit_0_3)
        \<le> 18 / 100 * real_of_int n + real_of_int n / 2 ^ 52"
    and "42 / 100 * real_of_int n - real_of_int n / 2 ^ 52
        \<le> valof (fmul (lock_width sz scale) lit_0_7)"
    and "valof (fmul (lock_width sz scale) lit_0_7)
        \<le> 42 / 100 * real_of_int n + real_of_int n / 2 ^ 52"
    and "3 / 10 * real_of_int n - real_of_int n / 2 ^ 52
        \<le> valof (fmul (lock_width sz scale) lit_0_5)"
    and "valof (fmul (lock_width sz scale) lit_0_5)
        \<le> 3 / 10 * real_of_int n + real_of_int n / 2 ^ 52"
    and "38 / 100 * real_of_int n - real_of_int n / 2 ^ 51
        \<le> valof (fadd (lock_x sz scale) (fmul (lock_width sz scale) lit_0_3))"
    and "valof (fadd (lock_x sz scale) (fmul (lock_width sz scale) lit_0_3))
        \<le> 38 / 100 * real_of_int n + real_of_int n / 2 ^ 51"
    and "62 / 100 * real_of_int n - real_of_int n / 2 ^ 51
        \<le> valof (fadd (lock_x sz scale) (fmul (lock_width sz scale) lit_0_7))"
    and "valof (fadd (lock_x sz scale) (fmul (lock_width sz scale) lit_0_7))
        \<le> 62 / 100 * real_of_int n + real_of_int n / 2 ^ 51"
    and "5 / 10 * real_of_int n - real_of_int n / 2 ^ 51
        \<le> valof (fadd (lock_x sz scale) (fmul (lock_width sz scale) lit_0_5))"
    and "valof (fadd (lock_x sz scale) (fmul (lock_width sz scale) lit_0_5))
        \<le> 5 / 10 * real_of_int n + real_of_int n / 2 ^ 51"
    and "32 / 100 * real_of_int n - real_of_int n / 2 ^ 50 \<le> valof (fsub (fadd (lock_x sz
        scale) (fmul (lock_width sz scale) lit_0_3)) (fmul (lock_width sz scale) lit_0_1))"
    and "valof (fsub (fadd (lock_x sz scale) (fmul (lock_width sz scale) lit_0_3)) (fmul
        (lock_width sz scale) lit_0_1)) \<le> 32 / 100 * real_of_int n + real_of_int n / 2 ^ 50"
    and "44 / 100 * real_of_int n - real_of_int n / 2 ^ 50 \<le> valof (fadd (fadd (lock_x sz
        scale) (fmul (lock_width sz scale) lit_0_3)) (fmul (lock_width sz scale) lit_0_1))"
    and "valof (fadd (fadd (lock_x sz scale) (fmul (lock_width sz scale) lit_0_3)) (fmul
        (lock_width sz scale) lit_0_1)) \<le> 44 / 100 * real_of_int n + real_of_int n / 2 ^ 50"
    and "56 / 100 * real_of_int n - real_of_int n / 2 ^ 50 \<le> valof (fsub (fadd (lock_x sz
        scale) (fmul (lock_width sz scale) lit_0_7)) (fmul (lock_width sz scale) lit_0_1))"
    and "valof (fsub (fadd (lock_x sz scale) (fmul (lock_width sz scale) lit_0_7)) (fmul
        (lock_width sz scale) lit_0_1)) \<le> 56 / 100 * real_of_int n + real_of_int n / 2 ^ 50"
    and "68 / 100 * real_of_int n - real_of_int n / 2 ^ 50 \<le> valof (fadd (fadd (lock_x sz
        scale) (fmul (lock_width sz scale) lit_0_7)) (fmul (lock_width sz scale) lit_0_1))"
    and "valof (fadd (fadd (lock_x sz scale) (fmul (lock_width sz scale) lit_0_7)) (fmul
        (lock_width sz scale) lit_0_1)) \<le> 68 / 100 * real_of_int n + real_of_int n / 2 ^ 50"
proof -
  define N where "N = real_of_int n"
  have N0: "0 < N" using assms(2) by (simp add: N_def)
  have lw: "lock_width sz scale = fmul (float_of_int n) lit_0_6"
    by (simp add: lock_width_def assms(1))
  have lx: "lock_x sz scale
      = fdiv (fsub (float_of_int n) (fmul (float_of_int n) lit_0_6)) (float_of_int 2)"
    by (simp add: lock_x_def lock_width_def assms(1))
  have "\<bar>valof (lock_width sz scale) - 6 / 10 * N\<bar> \<le> N / 2 ^ 53"
    unfolding lw N_def by (rule width_value(1)[OF assms(2,3)])
  then have W53: "6 / 10 * N - N / 2 ^ 53 \<le> valof (lock_width sz scale)"
    "valof (lock_width sz scale) \<le> 6 / 10 * N + N / 2 ^ 53" by linarith+
  have W: "6 / 10 * N - N / 2 ^ 53
      \<le> valof (lock_width sz scale)" "valof (lock_width sz scale) \<le> 6 / 10 * N + N / 2 ^ 53"
    using W53 N0 by (simp_all add: field_simps)
  have Xeq: "valof (lock_x sz scale) = (N - valof (lock_width sz scale)) / 2"
    unfolding lx lw N_def by (rule offset_value[OF assms(2,3)])
  have X: "2 / 10 * N - N / 2 ^ 53 \<le> valof (lock_x sz scale)" "valof (lock_x sz scale)
      \<le> 2 / 10 * N + N / 2 ^ 53"
    using W53 N0 unfolding Xeq by simp_all
  have h4p: "0 \<le> valof (lock_width sz scale)" using W N0 by simp
  note h4m = fmul_lit[OF valof_literals(1) _ h4p]
  have h4: "24 / 100 * N - N / 2 ^ 52 \<le> valof (fmul (lock_width sz scale) lit_0_4)" "valof
      (fmul (lock_width sz scale) lit_0_4) \<le> 24 / 100 * N + N / 2 ^ 52"
    using h4m W N0 by (simp_all add: field_simps)
  have y0bp: "0
      \<le> valof (lock_x sz scale) + valof (fmul (lock_width sz scale) lit_0_4)" using X h4 N0
      by simp
  note y0bm = fadd_pos[OF y0bp]
  have y0b: "44 / 100 * N - N / 2 ^ 51 \<le> valof (fadd (lock_x sz scale) (fmul (lock_width sz
      scale) lit_0_4))" "valof (fadd (lock_x sz scale) (fmul (lock_width sz scale) lit_0_4))
      \<le> 44 / 100 * N + N / 2 ^ 51"
    using y0bm X h4 N0 by (simp_all add: field_simps)
  have x1bp: "0 \<le> valof (lock_x sz scale) + valof (lock_width sz scale)" using X W N0 by simp
  note x1bm = fadd_pos[OF x1bp]
  have x1b: "8 / 10 * N - N / 2 ^ 51 \<le> valof (fadd (lock_x sz scale) (lock_width sz scale))"
      "valof (fadd (lock_x sz scale) (lock_width sz scale)) \<le> 8 / 10 * N + N / 2 ^ 51"
    using x1bm X W N0 by (simp_all add: field_simps)
  have swp: "0 \<le> valof (lock_width sz scale)" using W N0 by simp
  note swm = fmul_lit[OF valof_literals(2) _ swp]
  have sw: "6 / 100 * N - N / 2 ^ 52 \<le> valof (fmul (lock_width sz scale) lit_0_1)" "valof
      (fmul (lock_width sz scale) lit_0_1) \<le> 6 / 100 * N + N / 2 ^ 52"
    using swm W N0 by (simp_all add: field_simps)
  have a3p: "0 \<le> valof (lock_width sz scale)" using W N0 by simp
  note a3m = fmul_lit[OF valof_literals(3) _ a3p]
  have a3: "18 / 100 * N - N / 2 ^ 52 \<le> valof (fmul (lock_width sz scale) lit_0_3)" "valof
      (fmul (lock_width sz scale) lit_0_3) \<le> 18 / 100 * N + N / 2 ^ 52"
    using a3m W N0 by (simp_all add: field_simps)
  have a7p: "0 \<le> valof (lock_width sz scale)" using W N0 by simp
  note a7m = fmul_lit[OF valof_literals(4) _ a7p]
  have a7: "42 / 100 * N - N / 2 ^ 52 \<le> valof (fmul (lock_width sz scale) lit_0_7)" "valof
      (fmul (lock_width sz scale) lit_0_7) \<le> 42 / 100 * N + N / 2 ^ 52"
    using a7m W N0 by (simp_all add: field_simps)
  have h5p: "0 \<le> valof (lock_width sz scale)" using W N0 by simp
  note h5m = fmul_lit[OF valof_literals(5) _ h5p]
  have h5: "3 / 10 * N - N / 2 ^ 52 \<le> valof (fmul (lock_width sz scale) lit_0_5)" "valof
      (fmul (lock_width sz scale) lit_0_5) \<le> 3 / 10 * N + N / 2 ^ 52"
    using h5m W N0 by (simp_all add: field_simps)
  have xc0p: "0
      \<le> valof (lock_x sz scale) + valof (fmul (lock_width sz scale) lit_0_3)" using X a3 N0
      by simp
  note xc0m = fadd_pos[OF xc0p]
  have xc0: "38 / 100 * N - N / 2 ^ 51 \<le> valof (fadd (lock_x sz scale) (fmul (lock_width sz
      scale) lit_0_3))" "valof (fadd (lock_x sz scale) (fmul (lock_width sz scale) lit_0_3))
      \<le> 38 / 100 * N + N / 2 ^ 51"
    using xc0m X a3 N0 by (simp_all add: field_simps)
  have xc1p: "0
      \<le> valof (lock_x sz scale) + valof (fmul (lock_width sz scale) lit_0_7)" using X a7 N0
      by simp
  note xc1m = fadd_pos[OF xc1p]
  have xc1: "62 / 100 * N - N / 2 ^ 51 \<le> valof (fadd (lock_x sz scale) (fmul (lock_width sz
      scale) lit_0_7))" "valof (fadd (lock_x sz scale) (fmul (lock_width sz scale) lit_0_7))
      \<le> 62 / 100 * N + N / 2 ^ 51"
    using xc1m X a7 N0 by (simp_all add: field_simps)
  have ybp: "0
      \<le> valof (lock_x sz scale) + valof (fmul (lock_width sz scale) lit_0_5)" using X h5 N0
      by simp
  note ybm = fadd_pos[OF ybp]
  have yb: "5 / 10 * N - N / 2 ^ 51 \<le> valof (fadd (lock_x sz scale) (fmul (lock_width sz
      scale) lit_0_5))" "valof (fadd (lock_x sz scale) (fmul (lock_width sz scale) lit_0_5))
      \<le> 5 / 10 * N + N / 2 ^ 51"
    using ybm X h5 N0 by (simp_all add: field_simps)
  have xl0p: "0 \<le> valof (fadd (lock_x sz scale) (fmul (lock_width sz scale) lit_0_3)) - valof
      (fmul (lock_width sz scale) lit_0_1)" using xc0 sw N0 by simp
  note xl0m = fsub_pos[OF xl0p]
  have xl0: "32 / 100 * N - N / 2 ^ 50 \<le> valof (fsub (fadd (lock_x sz scale) (fmul
      (lock_width sz scale) lit_0_3)) (fmul (lock_width sz scale) lit_0_1))" "valof (fsub (fadd
      (lock_x sz scale) (fmul (lock_width sz scale) lit_0_3)) (fmul (lock_width sz scale)
      lit_0_1)) \<le> 32 / 100 * N + N / 2 ^ 50"
    using xl0m xc0 sw N0 by (simp_all add: field_simps)
  have xl1p: "0 \<le> valof (fadd (lock_x sz scale) (fmul (lock_width sz scale) lit_0_3)) + valof
      (fmul (lock_width sz scale) lit_0_1)" using xc0 sw N0 by simp
  note xl1m = fadd_pos[OF xl1p]
  have xl1: "44 / 100 * N - N / 2 ^ 50 \<le> valof (fadd (fadd (lock_x sz scale) (fmul
      (lock_width sz scale) lit_0_3)) (fmul (lock_width sz scale) lit_0_1))" "valof (fadd (fadd
      (lock_x sz scale) (fmul (lock_width sz scale) lit_0_3)) (fmul (lock_width sz scale)
      lit_0_1)) \<le> 44 / 100 * N + N / 2 ^ 50"
    using xl1m xc0 sw N0 by (simp_all add: field_simps)
  have xr0p: "0 \<le> valof (fadd (lock_x sz scale) (fmul (lock_width sz scale) lit_0_7)) - valof
      (fmul (lock_width sz scale) lit_0_1)" using xc1 sw N0 by simp
  note xr0m = fsub_pos[OF xr0p]
  have xr0: "56 / 100 * N - N / 2 ^ 50 \<le> valof (fsub (fadd (lock_x sz scale) (fmul
      (lock_width sz scale) lit_0_7)) (fmul (lock_width sz scale) lit_0_1))" "valof (fsub (fadd
      (lock_x sz scale) (fmul (lock_width sz scale) lit_0_7)) (fmul (lock_width sz scale)
      lit_0_1)) \<le> 56 / 100 * N + N / 2 ^ 50"
    using xr0m xc1 sw N0 by (simp_all add: field_simps)
  have xr1p: "0 \<le> valof (fadd (lock_x sz scale) (fmul (lock_width sz scale) lit_0_7)) + valof
      (fmul (lock_width sz scale) lit_0_1)" using xc1 sw N0 by simp
  note xr1m = fadd_pos[OF xr1p]
  have xr1: "68 / 100 * N - N / 2 ^ 50 \<le> valof (fadd (fadd (lock_x sz scale) (fmul
      (lock_width sz scale) lit_0_7)) (fmul (lock_width sz scale) lit_0_1))" "valof (fadd (fadd
      (lock_x sz scale) (fmul (lock_width sz scale) lit_0_7)) (fmul (lock_width sz scale)
      lit_0_1)) \<le> 68 / 100 * N + N / 2 ^ 50"
    using xr1m xc1 sw N0 by (simp_all add: field_simps)
  show "6 / 10 * real_of_int n - real_of_int n / 2 ^ 53
      \<le> valof (lock_width sz scale)" using W(1) unfolding N_def .
  show "valof (lock_width sz scale)
      \<le> 6 / 10 * real_of_int n + real_of_int n / 2 ^ 53" using W(2) unfolding N_def .
  show "2 / 10 * real_of_int n - real_of_int n / 2 ^ 53
      \<le> valof (lock_x sz scale)" using X(1) unfolding N_def .
  show "valof (lock_x sz scale)
      \<le> 2 / 10 * real_of_int n + real_of_int n / 2 ^ 53" using X(2) unfolding N_def .
  show "24 / 100 * real_of_int n - real_of_int n / 2 ^ 52
      \<le> valof (fmul (lock_width sz scale) lit_0_4)" using h4(1) unfolding N_def .
  show "valof (fmul (lock_width sz scale) lit_0_4)
      \<le> 24 / 100 * real_of_int n + real_of_int n / 2 ^ 52" using h4(2) unfolding N_def .
  show "44 / 100 * real_of_int n - real_of_int n / 2 ^ 51 \<le> valof (fadd (lock_x sz scale)
      (fmul (lock_width sz scale) lit_0_4))" using y0b(1) unfolding N_def .
  show "valof (fadd (lock_x sz scale) (fmul (lock_width sz scale) lit_0_4))
      \<le> 44 / 100 * real_of_int n + real_of_int n / 2 ^ 51" using y0b(2) unfolding N_def .
  show "8 / 10 * real_of_int n - real_of_int n / 2 ^ 51
      \<le> valof (fadd (lock_x sz scale) (lock_width sz scale))" using x1b(1) unfolding N_def .
  show "valof (fadd (lock_x sz scale) (lock_width sz scale))
      \<le> 8 / 10 * real_of_int n + real_of_int n / 2 ^ 51" using x1b(2) unfolding N_def .
  show "6 / 100 * real_of_int n - real_of_int n / 2 ^ 52
      \<le> valof (fmul (lock_width sz scale) lit_0_1)" using sw(1) unfolding N_def .
  show "valof (fmul (lock_width sz scale) lit_0_1)
      \<le> 6 / 100 * real_of_int n + real_of_int n / 2 ^ 52" using sw(2) unfolding N_def .
  show "18 / 100 * real_of_int n - real_of_int n / 2 ^ 52
      \<le> valof (fmul (lock_width sz scale) lit_0_3)" using a3(1) unfolding N_def .
  show "valof (fmul (lock_width sz scale) lit_0_3)
      \<le> 18 / 100 * real_of_int n + real_of_int n / 2 ^ 52" using a3(2) unfolding N_def .
  show "42 / 100 * real_of_int n - real_of_int n / 2 ^ 52
      \<le> valof (fmul (lock_width sz scale) lit_0_7)" using a7(1) unfolding N_def .
  show "valof (fmul (lock_width sz scale) lit_0_7)
      \<le> 42 / 100 * real_of_int n + real_of_int n / 2 ^ 52" using a7(2) unfolding N_def .
  show "3 / 10 * real_of_int n - real_of_int n / 2 ^ 52
      \<le> valof (fmul (lock_width sz scale) lit_0_5)" using h5(1) unfolding N_def .
  show "valof (fmul (lock_width sz scale) lit_0_5)
      \<le> 3 / 10 * real_of_int n + real_of_int n / 2 ^ 52" using h5(2) unfolding N_def .
  show "38 / 100 * real_of_int n - real_of_int n / 2 ^ 51 \<le> valof (fadd (lock_x sz scale)
      (fmul (lock_width sz scale) lit_0_3))" using xc0(1) unfolding N_def .
  show "valof (fadd (lock_x sz scale) (fmul (lock_width sz scale) lit_0_3))
      \<le> 38 / 100 * real_of_int n + real_of_int n / 2 ^ 51" using xc0(2) unfolding N_def .
  show "62 / 100 * real_of_int n - real_of_int n / 2 ^ 51 \<le> valof (fadd (lock_x sz scale)
      (fmul (lock_width sz scale) lit_0_7))" using xc1(1) unfolding N_def .
  show "valof (fadd (lock_x sz scale) (fmul (lock_width sz scale) lit_0_7))
      \<le> 62 / 100 * real_of_int n + real_of_int n / 2 ^ 51" using xc1(2) unfolding N_def .
  show "5 / 10 * real_of_int n - real_of_int n / 2 ^ 51 \<le> valof (fadd (lock_x sz scale) (fmul
      (lock_width sz scale) lit_0_5))" using yb(1) unfolding N_def .
  show "valof (fadd (lock_x sz scale) (fmul (lock_width sz scale) lit_0_5))
      \<le> 5 / 10 * real_of_int n + real_of_int n / 2 ^ 51" using yb(2) unfolding N_def .
  show "32 / 100 * real_of_int n - real_of_int n / 2 ^ 50 \<le> valof (fsub (fadd (lock_x sz
      scale) (fmul (lock_width sz scale) lit_0_3)) (fmul (lock_width sz scale) lit_0_1))" using
      xl0(1) unfolding N_def .
  show "valof (fsub (fadd (lock_x sz scale) (fmul (lock_width sz scale) lit_0_3)) (fmul
      (lock_width sz scale) lit_0_1))
      \<le> 32 / 100 * real_of_int n + real_of_int n / 2 ^ 50" using xl0(2) unfolding N_def .
  show "44 / 100 * real_of_int n - real_of_int n / 2 ^ 50 \<le> valof (fadd (fadd (lock_x sz
      scale) (fmul (lock_width sz scale) lit_0_3)) (fmul (lock_width sz scale) lit_0_1))" using
      xl1(1) unfolding N_def .
  show "valof (fadd (fadd (lock_x sz scale) (fmul (lock_width sz scale) lit_0_3)) (fmul
      (lock_width sz scale) lit_0_1))
      \<le> 44 / 100 * real_of_int n + real_of_int n / 2 ^ 50" using xl1(2) unfolding N_def .
  show "56 / 100 * real_of_int n - real_of_int n / 2 ^ 50 \<le> valof (fsub (fadd (lock_x sz
      scale) (fmul (lock_width sz scale) lit_0_7)) (fmul (lock_width sz scale) lit_0_1))" using
      xr0(1) unfolding N_def .
  show "valof (fsub (fadd (lock_x sz scale) (fmul (lock_width sz scale) lit_0_7)) (fmul
      (lock_width sz scale) lit_0_1))
      \<le> 56 / 100 * real_of_int n + real_of_int n / 2 ^ 50" using xr0(2) unfolding N_def .
  show "68 / 100 * real_of_int n - real_of_int n / 2 ^ 50 \<le> valof (fadd (fadd (lock_x sz
      scale) (fmul (lock_width sz scale) lit_0_7)) (fmul (lock_width sz scale) lit_0_1))" using
      xr1(1) unfolding N_def .
  show "valof (fadd (fadd (lock_x sz scale) (fmul (lock_width sz scale) lit_0_7)) (fmul
      (lock_width sz scale) lit_0_1))
      \<le> 68 / 100 * real_of_int n + real_of_int n / 2 ^ 50" using xr1(2) unfolding N_def .
qed

subsection \<open>The lock rectangle\<close>

lemma far_edge_error:
  assumes "n = sz * scale" and "0 < n" and "n < 2 ^ 53"
  shows "\<bar>(real_of_int n - valof (fadd (lock_x sz scale) (lock_width sz scale))) - valof
      (lock_x sz scale)\<bar>
           \<le> real_of_int n / 2 ^ 53"
    and "valof (lock_x sz scale) = (real_of_int n - valof (lock_width sz scale)) / 2"
proof -
  note g = geometry_bounds[OF assms]
  have n: "0 < real_of_int n" using assms(2) by simp
  have lw: "lock_width sz scale = fmul (float_of_int n) lit_0_6"
    by (simp add: lock_width_def assms(1))
  have lx: "lock_x sz scale
      = fdiv (fsub (float_of_int n) (fmul (float_of_int n) lit_0_6)) (float_of_int 2)"
    by (simp add: lock_x_def lock_width_def assms(1))
  show x: "valof (lock_x sz scale) = (real_of_int n - valof (lock_width sz scale)) / 2"
    unfolding lx lw by (rule offset_value[OF assms(2,3)])
  have p: "0 \<le> valof (lock_x sz scale) + valof (lock_width sz scale)"
    using g(1,3) n by (simp add: field_simps)
  note e = fadd_pos[OF p]
  have "valof (lock_x sz scale) + valof (lock_width sz scale) - valof (fadd (lock_x sz scale)
      (lock_width sz scale))
          \<le> real_of_int n / 2 ^ 53"
    and "valof (fadd (lock_x sz scale) (lock_width sz scale)) - (valof (lock_x sz scale) + valof
        (lock_width sz scale))
          \<le> real_of_int n / 2 ^ 53"
    using e g(2,4) n by (simp_all add: field_simps)
  then show "\<bar>(real_of_int n - valof (fadd (lock_x sz scale) (lock_width sz scale))) - valof
      (lock_x sz scale)\<bar>
           \<le> real_of_int n / 2 ^ 53"
    unfolding x by (intro abs_leI) (simp_all add: field_simps)
qed

text \<open>
  Claim C3, as the code has it. For positive size and scale with a canvas below
      \<open>2\<^sup>5\<^sup>3\<close>:
  width and height are the same double, 60 per cent of the canvas dimension in double
  arithmetic, hence within \<open>canvas / 2\<^sup>5\<^sup>3\<close> of the exact 60 per cent;
      the offsets on
  both axes are the same double, and it is exactly half of what the width leaves of the
  canvas, so the rectangle from \<open>lock_x\<close> to \<open>lock_x + lock_width\<close>,
      taken exactly, has
  equal margins. The far edge as the renderer computes it is rounded: the margin it
  leaves equals the near margin up to \<open>canvas / 2\<^sup>5\<^sup>3\<close>.
\<close>

theorem lock_rectangle_geometry:
  assumes "0 < sz" and "0 < scale" and "sz * scale < 2 ^ 53"
  shows "lock_width sz scale = spec_percent 60 (float_of_int (sz * scale)) \<and>
         lock_height sz scale = lock_width sz scale \<and>
         lock_y sz scale = lock_x sz scale \<and>
         \<bar>valof (lock_width sz scale) - 6 / 10 * real_of_int (sz * scale)\<bar>
            \<le> real_of_int (sz * scale) / 2 ^ 53 \<and>
         valof (lock_x sz scale)
             = (real_of_int (sz * scale) - valof (lock_width sz scale)) / 2 \<and>
         real_of_int (sz * scale) - (valof (lock_x sz scale) + valof (lock_width sz scale))
            = valof (lock_x sz scale) \<and>
         \<bar>(real_of_int (sz * scale) - valof (fadd (lock_x sz scale) (lock_width sz scale)))
              - valof (lock_x sz scale)\<bar> \<le> real_of_int (sz * scale) / 2 ^ 53"
proof -
  define n where "n = sz * scale"
  have n0: "0 < n" using assms(1,2) by (simp add: n_def)
  have n1: "n < 2 ^ 53" using assms(3) by (simp add: n_def)
  have a: "lock_width sz scale = spec_percent 60 (float_of_int n)"
    by (simp add: spec_percent_literals lock_width_def n_def)
  have "\<bar>valof (fmul (float_of_int n) lit_0_6) - 6 / 10 * real_of_int n\<bar>
      \<le> real_of_int n / 2 ^ 53"
    by (rule width_value(1)[OF n0 n1])
  then have b: "\<bar>valof (lock_width sz scale) - 6 / 10 * real_of_int n\<bar>
      \<le> real_of_int n / 2 ^ 53"
    by (simp add: lock_width_def n_def)
  note c = far_edge_error[OF n_def n0 n1]
  have d: "real_of_int n - (valof (lock_x sz scale) + valof (lock_width sz scale))
      = valof (lock_x sz scale)"
    unfolding c(2) by (simp add: field_simps)
  from a b c d lock_height_eq[of sz scale] lock_y_eq[of sz scale]
  show ?thesis unfolding n_def by blast
qed

theorem lock_rectangle_geometry_witness:
  "lock_width 512 1 = spec_percent 60 (float_of_int 512) \<and>
   lock_height 512 1 = lock_width 512 1 \<and> lock_y 512 1 = lock_x 512 1 \<and>
   \<bar>valof (lock_width 512 1) - 6 / 10 * 512\<bar> \<le> 512 / 2 ^ 53 \<and>
   valof (lock_x 512 1) = (512 - valof (lock_width 512 1)) / 2 \<and>
   512 - (valof (lock_x 512 1) + valof (lock_width 512 1)) = valof (lock_x 512 1) \<and>
   \<bar>(512 - valof (fadd (lock_x 512 1) (lock_width 512 1))) - valof (lock_x 512 1)\<bar>
       \<le> 512 / 2 ^ 53"
proof -
  have "(0::int) < 512" "(0::int) < 1" "(512::int) * 1 < 2 ^ 53" by simp_all
  from lock_rectangle_geometry[OF this] show ?thesis
    unfolding mult_1_right of_int_numeral .
qed

text \<open>
  Claim C3 as stated fails at the first size the script renders. The width
  \<^verbatim>\<open>512 * 0.6\<close> is the double \<open>307.19999999999998863\<close>, not 60 per cent of 512; and with
  the far edge \<^verbatim>\<open>lock_x + lock_width\<close> that the renderer computes, the right margin
  \<open>102.39999999999997726\<close> differs from the left margin \<open>102.40000000000000568\<close>, both
  as an exact difference and as the double subtraction \<^verbatim>\<open>512 - (lock_x + lock_width)\<close>.
\<close>

theorem lock_rectangle_not_exact:
  "valof (lock_width 512 1) \<noteq> 6 / 10 * 512 \<and>
   512 - valof (fadd (lock_x 512 1) (lock_width 512 1)) \<noteq> valof (lock_x 512 1) \<and>
   valof (fsub (float_of_int 512) (fadd (lock_x 512 1) (lock_width 512 1)))
     \<noteq> valof (lock_x 512 1)"
  by code_simp

subsection \<open>The lock body and the shackle\<close>








subsection \<open>Pixels outside the background disc\<close>























end
